theory Spec2Isabelle
  imports Complex_Main
begin

section \<open>JavaScript values, promises and the clock\<close>

text \<open>
  A thrown value is either \<open>undefined\<close> (or \<open>null\<close>) or an \<open>Error\<close> object; of the object only the
  fields read by the code under study are kept: \<open>message\<close>, \<open>code\<close> (transport error
  code) and \<open>response.status\<close>.
\<close>

datatype js_error =
    ThrownUndefined
  | JsError (message: string) (code: "string option") (response_status: "int option")

text \<open>The settlement of a promise.\<close>

datatype 'v outcome = Fulfilled 'v | Rejected js_error

text \<open>
  The world outside the component under study.  \<open>now\<close> is what \<open>Date.now()\<close> returns;
  everything else (servers, counters) lives in the extension of the record.  An awaited
  asynchronous function is a state transformer on the world that yields a settlement;
  synchronous code between two awaits does not advance the clock.
\<close>

record world =
  now :: int

type_synonym ('v, 'x) async = "'x world_scheme \<Rightarrow> 'v outcome \<times> 'x world_scheme"

section \<open>Circuit breaker (class CircuitBreaker)\<close>

datatype breaker_state = CLOSED | OPEN | HALF_OPEN

record CircuitBreaker =
  threshold :: nat
  timeout :: int
  resetTimeout :: int
  failureCount :: nat
  lastFailure :: "int option"
  state :: breaker_state
  nextAttempt :: "int option"

text \<open>The \<open>options\<close> argument of the constructor; \<open>None\<close> is an absent field.\<close>

record breaker_options =
  opt_threshold :: "nat option"
  opt_timeout :: "int option"
  opt_resetTimeout :: "int option"

text \<open>\<open>x || d\<close> on an optional number: absent and \<open>0\<close> are falsy.\<close>

definition or_default :: "'a::zero option \<Rightarrow> 'a \<Rightarrow> 'a" where
  "or_default x d = (case x of None \<Rightarrow> d | Some v \<Rightarrow> if v = 0 then d else v)"

definition new_CircuitBreaker :: "breaker_options \<Rightarrow> CircuitBreaker" where
  "new_CircuitBreaker options =
     \<lparr> threshold = or_default (opt_threshold options) 5,
       timeout = or_default (opt_timeout options) 60000,
       resetTimeout = or_default (opt_resetTimeout options) 30000,
       failureCount = 0,
       lastFailure = None,
       state = CLOSED,
       nextAttempt = None \<rparr>"

definition setState :: "breaker_state \<Rightarrow> CircuitBreaker \<Rightarrow> CircuitBreaker" where
  "setState s this = (if state this \<noteq> s then this\<lparr>state := s\<rparr> else this)"

definition onSuccess :: "CircuitBreaker \<Rightarrow> CircuitBreaker" where
  "onSuccess this = setState CLOSED (this\<lparr>failureCount := 0\<rparr>)"

text \<open>\<open>onFailure\<close> reads \<open>Date.now()\<close>; the reading is the argument \<open>t\<close>.\<close>

definition onFailure :: "int \<Rightarrow> CircuitBreaker \<Rightarrow> CircuitBreaker" where
  "onFailure t this =
     (let this1 = this\<lparr>failureCount := failureCount this + 1, lastFailure := Some t\<rparr>
      in if failureCount this1 \<ge> threshold this1
         then (setState OPEN this1)\<lparr>nextAttempt := Some (t + resetTimeout this1)\<rparr>
         else this1)"

text \<open>
  \<open>Date.now() < this.nextAttempt\<close>: a \<open>null\<close> operand of \<open><\<close> is converted to \<open>0\<close>.
\<close>

definition before_nextAttempt :: "int \<Rightarrow> CircuitBreaker \<Rightarrow> bool" where
  "before_nextAttempt t this = (t < (case nextAttempt this of None \<Rightarrow> 0 | Some n \<Rightarrow> n))"

definition circuit_open_error :: js_error where
  "circuit_open_error = JsError ''Circuit breaker is OPEN - service unavailable'' None None"

text \<open>
  The breaker with which the wrapped function is called: an \<open>OPEN\<close> breaker whose
  cool-down has passed is switched to \<open>HALF_OPEN\<close> first.
\<close>

definition enter :: "CircuitBreaker \<Rightarrow> CircuitBreaker" where
  "enter this = (if state this = OPEN then setState HALF_OPEN this else this)"

text \<open>
  \<open>execute(fn)\<close> returns the settlement, the breaker after the call and the world after
  the call.  \<open>fn\<close> is applied to the world only on the path on which the source calls it.
\<close>

definition CircuitBreaker_execute ::
  "CircuitBreaker \<Rightarrow> ('v, 'x) async \<Rightarrow> 'x world_scheme
     \<Rightarrow> 'v outcome \<times> CircuitBreaker \<times> 'x world_scheme" where
  "CircuitBreaker_execute this fn w =
     (if state this = OPEN \<and> before_nextAttempt (now w) this
      then (Rejected circuit_open_error, this, w)
      else (case fn w of
              (Fulfilled result, w') \<Rightarrow> (Fulfilled result, onSuccess (enter this), w')
            | (Rejected error, w') \<Rightarrow> (Rejected error, onFailure (now w') (enter this), w')))"

text \<open>
  The breakers the program can hold: built by the constructor and changed only by the
  atomic steps of \<open>execute\<close> (the switch to \<open>HALF_OPEN\<close>, \<open>onSuccess\<close>, \<open>onFailure\<close>),
  in any order, so interleaved calls on a shared breaker are covered.
\<close>

inductive reachable :: "CircuitBreaker \<Rightarrow> bool" where
  r_new: "reachable (new_CircuitBreaker options)"
| r_trial: "reachable b \<Longrightarrow> state b = OPEN \<Longrightarrow> reachable (setState HALF_OPEN b)"
| r_success: "reachable b \<Longrightarrow> reachable (onSuccess b)"
| r_failure: "reachable b \<Longrightarrow> reachable (onFailure t b)"

text \<open>Recording the failures that happen at the clock readings \<open>ts\<close>, one after the other.\<close>

definition record_failures :: "int list \<Rightarrow> CircuitBreaker \<Rightarrow> CircuitBreaker" where
  "record_failures ts b = foldl (\<lambda>this t. onFailure t this) b ts"

section \<open>Retry mechanism (class RetryMechanism)\<close>

record RetryMechanism =
  maxRetries :: nat
  baseDelay :: real
  maxDelay :: real
  jitter :: bool

record retry_options =
  opt_maxRetries :: "nat option"
  opt_baseDelay :: "real option"
  opt_maxDelay :: "real option"
  opt_jitter :: "bool option"

text \<open>
  The constructor.  The last field is \<open>options.jitter || true\<close>: whatever the option
  holds, the right operand \<open>true\<close> is the result when the left one is falsy.
\<close>

definition new_RetryMechanism :: "retry_options \<Rightarrow> RetryMechanism" where
  "new_RetryMechanism options =
     \<lparr> maxRetries = or_default (opt_maxRetries options) 3,
       baseDelay = or_default (opt_baseDelay options) 1000,
       maxDelay = or_default (opt_maxDelay options) 30000,
       jitter = (case opt_jitter options of Some True \<Rightarrow> True | _ \<Rightarrow> True) \<rparr>"

text \<open>
  \<open>calculateDelay(attempt)\<close>; \<open>rnd\<close> is the value \<open>Math.random()\<close> returns (read only
  when \<open>jitter\<close> is set), a number in \<open>[0, 1)\<close>.  JavaScript doubles are taken as reals.
\<close>

definition calculateDelay :: "RetryMechanism \<Rightarrow> int \<Rightarrow> real \<Rightarrow> int" where
  "calculateDelay this attempt rnd =
     (let delay = min (baseDelay this * 2 powi (attempt - 1)) (maxDelay this);
          delay' = (if jitter this then delay * (0.5 + rnd * 0.5) else delay)
      in \<lfloor>delay'\<rfloor>)"

definition transientCodes :: "string list" where
  "transientCodes = [''ETIMEDOUT'', ''ECONNRESET'', ''ECONNABORTED'', ''ENETUNREACH'',
                     ''EHOSTUNREACH'', ''ECONNREFUSED'']"

definition transientStatusCodes :: "int list" where
  "transientStatusCodes = [408, 429, 500, 502, 503, 504]"

definition isTransientError :: "js_error \<Rightarrow> bool" where
  "isTransientError error =
     (case error of
        ThrownUndefined \<Rightarrow> False
      | JsError m c s \<Rightarrow>
          (case c of Some c' \<Rightarrow> c' \<noteq> [] \<and> c' \<in> set transientCodes | None \<Rightarrow> False) \<or>
          (case s of Some s' \<Rightarrow> s' \<in> set transientStatusCodes | None \<Rightarrow> False))"

text \<open>\<open>sleep(ms)\<close>: the timer fires \<open>ms\<close> milliseconds later (at once when \<open>ms\<close> is negative).\<close>

definition sleep :: "int \<Rightarrow> 'x world_scheme \<Rightarrow> 'x world_scheme" where
  "sleep ms w = w\<lparr>now := now w + max 0 ms\<rparr>"

text \<open>
  The loop of \<open>RetryMechanism.execute\<close>, from attempt number \<open>attempt\<close> on.  \<open>rnd k\<close> is
  what \<open>Math.random()\<close> returns in attempt \<open>k\<close>.  When the loop body never runs, the source
  throws \<open>lastError\<close>, which is still \<open>undefined\<close>.
\<close>

function retry_loop ::
  "RetryMechanism \<Rightarrow> (nat \<Rightarrow> real) \<Rightarrow> ('v, 'x) async \<Rightarrow> nat \<Rightarrow> js_error
     \<Rightarrow> 'x world_scheme \<Rightarrow> 'v outcome \<times> 'x world_scheme" where
  "retry_loop this rnd fn attempt lastError w =
     (if attempt \<le> maxRetries this
      then (case fn w of
              (Fulfilled result, w') \<Rightarrow> (Fulfilled result, w')
            | (Rejected error, w') \<Rightarrow>
                if attempt = maxRetries this \<or> \<not> isTransientError error
                then (Rejected error, w')
                else retry_loop this rnd fn (attempt + 1) error
                       (sleep (calculateDelay this (int attempt) (rnd attempt)) w'))
      else (Rejected lastError, w))"
  by pat_completeness auto
termination
  by (relation "measure (\<lambda>(this, rnd, fn, attempt, lastError, w). Suc (maxRetries this) - attempt)")
    auto

declare retry_loop.simps [simp del]

definition RetryMechanism_execute ::
  "RetryMechanism \<Rightarrow> (nat \<Rightarrow> real) \<Rightarrow> ('v, 'x) async \<Rightarrow> ('v, 'x) async" where
  "RetryMechanism_execute this rnd fn w = retry_loop this rnd fn 1 ThrownUndefined w"

text \<open>The module-level instance \<open>defaultRetryMechanism = new RetryMechanism()\<close>.\<close>

definition defaultRetryMechanism :: RetryMechanism where
  "defaultRetryMechanism =
     new_RetryMechanism \<lparr>opt_maxRetries = None, opt_baseDelay = None, opt_maxDelay = None,
                         opt_jitter = None\<rparr>"

section \<open>JavaScript numbers and strings\<close>

text \<open>
  A number is \<open>NaN\<close> or a real: doubles are taken as reals.  The infinities are left
  out; where the source can produce one, its effect is written out (the division by an
  \<open>avgDocLength\<close> of 0) or is absorbed by the clamp that follows (\<open>Math.exp\<close>).
\<close>

datatype jsnum = NaN | Num real

fun jmul :: "jsnum \<Rightarrow> jsnum \<Rightarrow> jsnum" where
  "jmul (Num x) (Num y) = Num (x * y)"
| "jmul _ _ = NaN"

fun jneg :: "jsnum \<Rightarrow> jsnum" where
  "jneg (Num x) = Num (- x)"
| "jneg NaN = NaN"

fun Math_exp :: "jsnum \<Rightarrow> jsnum" where
  "Math_exp (Num x) = Num (exp x)"
| "Math_exp NaN = NaN"

text \<open>\<open>Math.max\<close> and \<open>Math.min\<close> return \<open>NaN\<close> as soon as one argument is \<open>NaN\<close>.\<close>

fun Math_max :: "jsnum \<Rightarrow> jsnum \<Rightarrow> jsnum" where
  "Math_max (Num x) (Num y) = Num (max x y)"
| "Math_max _ _ = NaN"

fun Math_min :: "jsnum \<Rightarrow> jsnum \<Rightarrow> jsnum" where
  "Math_min (Num x) (Num y) = Num (min x y)"
| "Math_min _ _ = NaN"

text \<open>\<open>x >= y\<close> on numbers: false as soon as one side is \<open>NaN\<close>.\<close>

fun jge :: "jsnum \<Rightarrow> jsnum \<Rightarrow> bool" where
  "jge (Num x) (Num y) = (x \<ge> y)"
| "jge _ _ = False"

text \<open>
  Strings are lists of code units below 256 (Latin-1).  \<open>\w\<close> is \<open>[A-Za-z0-9_]\<close>; white
  space (the class \<open>\s\<close>, and what \<open>trim\<close> strips) is tab, line feed, vertical tab, form
  feed, carriage return, space and the no-break space U+00A0; \<open>toLowerCase\<close> maps \<open>A-Z\<close>
  and the capital letters U+00C0 to U+00DE (but U+00D7) to their small letters.
\<close>

definition upper_chars :: string where
  "upper_chars = ''ABCDEFGHIJKLMNOPQRSTUVWXYZ''"

definition lower_chars :: string where
  "lower_chars = ''abcdefghijklmnopqrstuvwxyz''"

definition latin1_upper_chars :: string where
  "latin1_upper_chars =
     [CHR 0xC0, CHR 0xC1, CHR 0xC2, CHR 0xC3, CHR 0xC4, CHR 0xC5, CHR 0xC6, CHR 0xC7,
      CHR 0xC8, CHR 0xC9, CHR 0xCA, CHR 0xCB, CHR 0xCC, CHR 0xCD, CHR 0xCE, CHR 0xCF,
      CHR 0xD0, CHR 0xD1, CHR 0xD2, CHR 0xD3, CHR 0xD4, CHR 0xD5, CHR 0xD6, CHR 0xD8,
      CHR 0xD9, CHR 0xDA, CHR 0xDB, CHR 0xDC, CHR 0xDD, CHR 0xDE]"

definition latin1_lower_chars :: string where
  "latin1_lower_chars =
     [CHR 0xE0, CHR 0xE1, CHR 0xE2, CHR 0xE3, CHR 0xE4, CHR 0xE5, CHR 0xE6, CHR 0xE7,
      CHR 0xE8, CHR 0xE9, CHR 0xEA, CHR 0xEB, CHR 0xEC, CHR 0xED, CHR 0xEE, CHR 0xEF,
      CHR 0xF0, CHR 0xF1, CHR 0xF2, CHR 0xF3, CHR 0xF4, CHR 0xF5, CHR 0xF6, CHR 0xF8,
      CHR 0xF9, CHR 0xFA, CHR 0xFB, CHR 0xFC, CHR 0xFD, CHR 0xFE]"

definition digit_chars :: string where
  "digit_chars = ''0123456789''"

definition is_word_char :: "char \<Rightarrow> bool" where
  "is_word_char c = (c \<in> set (upper_chars @ lower_chars @ digit_chars @ ''_''))"

definition is_space :: "char \<Rightarrow> bool" where
  "is_space c =
     (c \<in> set [CHR 0x09, CHR 0x0A, CHR 0x0B, CHR 0x0C, CHR 0x0D, CHR '' '', CHR 0xA0])"

definition toLowerCase_char :: "char \<Rightarrow> char" where
  "toLowerCase_char c =
     (case map_of (zip (upper_chars @ latin1_upper_chars) (lower_chars @ latin1_lower_chars)) c of
        Some l \<Rightarrow> l
      | None \<Rightarrow> c)"

definition toLowerCase :: "string \<Rightarrow> string" where
  "toLowerCase s = map toLowerCase_char s"

text \<open>\<open>s.trim()\<close>.\<close>

definition trim :: "string \<Rightarrow> string" where
  "trim s = rev (dropWhile is_space (rev (dropWhile is_space s)))"

text \<open>
  \<open>s.split(/\s+/)\<close>: the pieces between maximal runs of white space, the empty pieces
  at both ends included.  The flag says that the previous character was white space.
\<close>

fun split_from :: "bool \<Rightarrow> string \<Rightarrow> string list" where
  "split_from insep [] = [[]]"
| "split_from insep (c # cs) =
     (if is_space c
      then (if insep then split_from True cs else [] # split_from True cs)
      else (case split_from False cs of
              [] \<Rightarrow> [[c]]
            | t # ts \<Rightarrow> (c # t) # ts))"

definition split_ws :: "string \<Rightarrow> string list" where
  "split_ws s = split_from False s"

text \<open>\<open>xs.join(' ')\<close>.\<close>

fun join_space :: "string list \<Rightarrow> string" where
  "join_space [] = []"
| "join_space [x] = x"
| "join_space (x # y # ys) = x @ '' '' @ join_space (y # ys)"

section \<open>Relevance scorer (relevance-scorer.js)\<close>

definition BM25_k1 :: real where "BM25_k1 = 1.2"
definition BM25_b :: real where "BM25_b = 0.75"
definition recencyDecayPerDay :: real where "recencyDecayPerDay = 0.01"
definition minScore :: real where "minScore = 0.1"

definition STOP_WORDS :: "string list" where
  "STOP_WORDS =
     [''the'', ''a'', ''an'', ''and'', ''or'', ''but'', ''in'', ''on'', ''at'', ''to'', ''for'',
      ''of'', ''with'', ''by'', ''is'', ''are'', ''was'', ''were'', ''be'', ''been'', ''have'',
      ''has'', ''had'', ''do'', ''does'', ''did'', ''will'', ''would'', ''could'', ''should'']"

definition tokenize :: "string \<Rightarrow> string list" where
  "tokenize text =
     (if text = [] then []
      else filter (\<lambda>token. length token > 1 \<and> token \<notin> set STOP_WORDS)
             (split_ws (map (\<lambda>c. if is_word_char c \<or> is_space c then c else CHR '' '')
                          (toLowerCase text))))"

text \<open>
  \<open>termCounts\<close> is a plain object, so a look-up of a key that \<open>Object.prototype\<close> has
  (\<open>constructor\<close>, \<open>__proto__\<close>; the tokens are lower case) never yields a number, and
  the test \<open>tf > 0\<close> is false for it.  \<open>tf\<close> is only used behind that test, so such a
  key is given the count \<open>0\<close>.
\<close>

definition prototype_keys :: "string list" where
  "prototype_keys = [''constructor'', ''__proto__'']"

definition termCount :: "string list \<Rightarrow> string \<Rightarrow> nat" where
  "termCount docTokens term =
     (if term \<in> set prototype_keys then 0 else count_list docTokens term)"

text \<open>
  The summand of one query term.  The source divides by \<open>avgDocLength\<close>; when that is
  \<open>0\<close> the quotient is infinite and the summand is \<open>idf * 0\<close>.  The caller computes
  \<open>avgDocLength\<close> as a mean of lengths, so it is never negative.
\<close>

definition termScore :: "string \<Rightarrow> string list \<Rightarrow> string list list \<Rightarrow> real \<Rightarrow> real" where
  "termScore term docTokens allDocTokens avgDocLength =
     (let tf = termCount docTokens term
      in if tf > 0
         then (let docsWithTerm = length (filter (\<lambda>tokens. term \<in> set tokens) allDocTokens)
               in if docsWithTerm = 0 then 0
                  else (let idf = ln ((real (length allDocTokens) - real docsWithTerm + 0.5)
                                        / (real docsWithTerm + 0.5));
                            numerator = real tf * (BM25_k1 + 1);
                            denominator = real tf + BM25_k1 * (1 - BM25_b
                                            + BM25_b * (real (length docTokens) / avgDocLength))
                        in if avgDocLength = 0 then 0 else idf * (numerator / denominator)))
         else 0)"

definition calculateBM25Score ::
  "string list \<Rightarrow> string list \<Rightarrow> string list list \<Rightarrow> real \<Rightarrow> real" where
  "calculateBM25Score queryTerms docTokens allDocTokens avgDocLength =
     (if length docTokens = 0 then 0
      else sum_list (map (\<lambda>term. termScore term docTokens allDocTokens avgDocLength) queryTerms))"

datatype tags_value = TagsArray "string list" | TagsString string | TagsAbsent

text \<open>A result object; \<open>None\<close> is an absent (or \<open>null\<close>) field.\<close>

record search_result =
  title :: "string option"
  description :: "string option"
  url :: "string option"
  source :: "string option"
  result_type :: "string option"
  status :: "string option"
  updated :: "string option"
  tags :: tags_value
  comments :: "string option"
  relevanceScore :: "jsnum option"

text \<open>\<open>x || ''\<close>.\<close>

definition or_empty :: "string option \<Rightarrow> string" where
  "or_empty x = (case x of None \<Rightarrow> [] | Some s \<Rightarrow> s)"

definition extractSearchableText :: "search_result \<Rightarrow> string list" where
  "extractSearchableText result =
     tokenize (join_space
       [or_empty (title result),
        or_empty (description result),
        (case tags result of TagsArray ts \<Rightarrow> join_space ts | TagsString s \<Rightarrow> s | TagsAbsent \<Rightarrow> []),
        or_empty (result_type result),
        or_empty (status result),
        or_empty (comments result)])"

text \<open>
  \<open>calculateRecencyBoost(updatedDate)\<close>.  \<open>Date_parse\<close> is the engine's date parser
  (\<open>None\<close> for a string that gives an invalid date) and \<open>t\<close> is the clock, \<open>new Date()\<close>.
  \<open>new Date(s)\<close> does not throw on a string, so the \<open>catch\<close> branch is never taken; an
  invalid date has the time value \<open>NaN\<close>.
\<close>

definition calculateRecencyBoost :: "(string \<Rightarrow> int option) \<Rightarrow> int \<Rightarrow> string option \<Rightarrow> jsnum" where
  "calculateRecencyBoost Date_parse t updatedDate =
     (case updatedDate of
        None \<Rightarrow> Num 0.5
      | Some s \<Rightarrow>
          if s = [] then Num 0.5
          else (let daysDiff = (case Date_parse s of
                                  None \<Rightarrow> NaN
                                | Some u \<Rightarrow> Num ((real_of_int t - real_of_int u)
                                                  / (1000 * 60 * 60 * 24)));
                    boost = Math_exp (jmul (jneg daysDiff) (Num recencyDecayPerDay))
                in Math_max (Num 0.1) (Math_min (Num 1.0) boost)))"

definition calculateUserBoost :: "search_result \<Rightarrow> real" where
  "calculateUserBoost result = 1.0"

text \<open>
  \<open>Array.prototype.sort\<close> with the comparator \<open>b.relevanceScore - a.relevanceScore\<close>,
  as a stable insertion sort.  A comparator value \<open>NaN\<close> counts as \<open>0\<close>; the order the
  engine produces in that case is implementation-defined, and nothing below depends on it.
\<close>

definition comes_first :: "search_result \<Rightarrow> search_result \<Rightarrow> bool" where
  "comes_first a b =
     (case (relevanceScore a, relevanceScore b) of
        (Some (Num x), Some (Num y)) \<Rightarrow> y - x \<le> 0
      | _ \<Rightarrow> True)"

fun insert_by_score :: "search_result \<Rightarrow> search_result list \<Rightarrow> search_result list" where
  "insert_by_score a [] = [a]"
| "insert_by_score a (b # bs) =
     (if comes_first a b then a # b # bs else b # insert_by_score a bs)"

definition sort_by_score :: "search_result list \<Rightarrow> search_result list" where
  "sort_by_score rs = foldr insert_by_score rs []"

definition scoreResult ::
  "(string \<Rightarrow> int option) \<Rightarrow> int \<Rightarrow> string list \<Rightarrow> string list list \<Rightarrow> real
     \<Rightarrow> search_result \<times> string list \<Rightarrow> search_result" where
  "scoreResult Date_parse t queryTerms docTokens avgDocLength rt =
     (case rt of (result, tokens) \<Rightarrow>
        (let bm25Score = calculateBM25Score queryTerms tokens docTokens avgDocLength;
             recencyBoost = calculateRecencyBoost Date_parse t (updated result);
             userBoost = calculateUserBoost result;
             score = jmul (jmul (Num bm25Score) recencyBoost) (Num userBoost)
         in result\<lparr>relevanceScore := Some (Math_max (Num minScore) score)\<rparr>))"

definition calculateRelevanceScores ::
  "(string \<Rightarrow> int option) \<Rightarrow> int \<Rightarrow> search_result list \<Rightarrow> string \<Rightarrow> search_result list" where
  "calculateRelevanceScores Date_parse t results query =
     (if results = [] then []
      else if query = [] then results
      else (let queryTerms = tokenize query
            in if queryTerms = [] then results
               else (let docTokens = map extractSearchableText results;
                         avgDocLength = real (sum_list (map length docTokens))
                                          / real (length docTokens);
                         scoredResults = map (scoreResult Date_parse t queryTerms docTokens
                                                avgDocLength) (zip results docTokens)
                     in sort_by_score scoredResults)))"

section \<open>Search orchestrator (the \<open>search\<close> handler of main.js)\<close>

datatype jsval = JUndefined | JNull | JBool bool | JNum real | JStr string

text \<open>\<open>Boolean(v)\<close>.\<close>

fun Boolean :: "jsval \<Rightarrow> bool" where
  "Boolean JUndefined = False"
| "Boolean JNull = False"
| "Boolean (JBool b) = b"
| "Boolean (JNum x) = (x \<noteq> 0)"
| "Boolean (JStr s) = (s \<noteq> [])"

text \<open>A configuration object maps field names to values; \<open>None\<close> is an absent field.\<close>

type_synonym config = "string \<rightharpoonup> jsval"

text \<open>What a provider's search resolves to: an array, an object with a \<open>results\<close> array, or
  anything else.\<close>

datatype provider_value =
    VArray "search_result list"
  | VResults "search_result list"
  | VOther

text \<open>
  An extractor may throw (\<open>Inl\<close>); its return value is an array (\<open>Some\<close>) or something
  that is falsy or no array (\<open>None\<close>).
\<close>

type_synonym extractor = "provider_value \<Rightarrow> js_error + search_result list option"

text \<open>
  An entry of the integration registry, with the fields the handler reads.  The optional
  members \<open>validateSearchConfig\<close> and \<open>resultExtractor\<close> are \<open>None\<close> when absent; a
  validator returns \<open>null\<close> (\<open>None\<close>) or a message.
\<close>

record 'x integration =
  sourceName :: string
  filterKey :: string
  validateSearchConfig :: "(config \<Rightarrow> string option) option"
  resultExtractor :: "extractor option"
  searchHandler :: "string \<Rightarrow> config \<Rightarrow> (provider_value, 'x) async"

text \<open>An element of \<open>tasks\<close>; the promise is the pending call through the breaker.\<close>

record 'x task =
  task_source :: string
  task_extract :: extractor
  task_promise :: "'x world_scheme \<Rightarrow> provider_value outcome \<times> CircuitBreaker \<times> 'x world_scheme"

text \<open>An element of \<open>errors\<close>: \<open>{source, error}\<close>.\<close>

type_synonym error_entry = "string \<times> string"

text \<open>\<open>getCircuitBreaker(serviceName, options)\<close> on the module-level map.\<close>

definition getCircuitBreaker ::
  "string \<Rightarrow> breaker_options \<Rightarrow> (string \<rightharpoonup> CircuitBreaker)
     \<Rightarrow> CircuitBreaker \<times> (string \<rightharpoonup> CircuitBreaker)" where
  "getCircuitBreaker serviceName options circuitBreakers =
     (case circuitBreakers serviceName of
        Some cb \<Rightarrow> (cb, circuitBreakers)
      | None \<Rightarrow> (new_CircuitBreaker options,
                 circuitBreakers(serviceName \<mapsto> new_CircuitBreaker options)))"

definition search_breaker_options :: breaker_options where
  "search_breaker_options =
     \<lparr>opt_threshold = Some 3, opt_timeout = Some 30000, opt_resetTimeout = Some 60000\<rparr>"

text \<open>
  \<open>safeFilters\<close>: the string entries of \<open>activeFilters\<close> that are not blank; the empty
  list when \<open>activeFilters\<close> is no array (\<open>None\<close>).
\<close>

definition safeFilters :: "jsval list option \<Rightarrow> string list" where
  "safeFilters activeFilters =
     (case activeFilters of
        None \<Rightarrow> []
      | Some entries \<Rightarrow>
          concat (map (\<lambda>entry. case entry of
                                 JStr s \<Rightarrow> if length (trim s) > 0 then [s] else []
                               | _ \<Rightarrow> []) entries))"

definition isEnabled :: "config \<Rightarrow> bool" where
  "isEnabled integrationConfig =
     (case integrationConfig ''enabled'' of
        None \<Rightarrow> True
      | Some JUndefined \<Rightarrow> True
      | Some v \<Rightarrow> Boolean v)"

definition filterAllowed :: "string list \<Rightarrow> 'x integration \<Rightarrow> bool" where
  "filterAllowed filters defn = (length filters = 0 \<or> filterKey defn \<in> set filters)"

text \<open>\<open>integrations[id] || {}\<close>.\<close>

definition config_of :: "(string \<rightharpoonup> config) \<Rightarrow> string \<Rightarrow> config" where
  "config_of integrations ident = (case integrations ident of None \<Rightarrow> Map.empty | Some c \<Rightarrow> c)"

definition validationMessage :: "'x integration \<Rightarrow> config \<Rightarrow> string option" where
  "validationMessage defn integrationConfig =
     (case validateSearchConfig defn of
        None \<Rightarrow> None
      | Some validate \<Rightarrow> validate integrationConfig)"

text \<open>\<open>if (validationMessage)\<close>: \<open>null\<close> and the empty string are falsy.\<close>

definition truthy_message :: "string option \<Rightarrow> bool" where
  "truthy_message m = (case m of None \<Rightarrow> False | Some s \<Rightarrow> s \<noteq> [])"

definition default_extractor :: extractor where
  "default_extractor v = (case v of VArray xs \<Rightarrow> Inr (Some xs) | _ \<Rightarrow> Inr (Some []))"

text \<open>
  The promise pushed for a provider:
  \<open>circuitBreaker.execute(() => definition.searchHandler(trimmedQuery, integrationConfig))\<close>.
\<close>

definition dispatch_promise ::
  "CircuitBreaker \<Rightarrow> 'x integration \<Rightarrow> string \<Rightarrow> config
     \<Rightarrow> 'x world_scheme \<Rightarrow> provider_value outcome \<times> CircuitBreaker \<times> 'x world_scheme" where
  "dispatch_promise circuitBreaker defn trimmedQuery integrationConfig =
     CircuitBreaker_execute circuitBreaker (searchHandler defn trimmedQuery integrationConfig)"

text \<open>
  One turn of the loop over \<open>Object.entries(integrationRegistry)\<close>.  The loop state is
  \<open>errors\<close>, \<open>tasks\<close> and the module-level map of breakers.
\<close>

definition search_step ::
  "string \<Rightarrow> string list \<Rightarrow> (string \<rightharpoonup> config)
     \<Rightarrow> error_entry list \<times> 'x task list \<times> (string \<rightharpoonup> CircuitBreaker)
     \<Rightarrow> string \<times> 'x integration
     \<Rightarrow> error_entry list \<times> 'x task list \<times> (string \<rightharpoonup> CircuitBreaker)" where
  "search_step trimmedQuery filters integrations st entry =
     (case st of (errors, tasks, circuitBreakers) \<Rightarrow>
      case entry of (ident, defn) \<Rightarrow>
        (let integrationConfig = config_of integrations ident
         in if \<not> isEnabled integrationConfig \<or> \<not> filterAllowed filters defn
            then (errors, tasks, circuitBreakers)
            else if truthy_message (validationMessage defn integrationConfig)
            then (errors @ [(sourceName defn, or_empty (validationMessage defn integrationConfig))],
                  tasks, circuitBreakers)
            else (let extractor = (case resultExtractor defn of
                                     Some f \<Rightarrow> f
                                   | None \<Rightarrow> default_extractor);
                      (circuitBreaker, circuitBreakers') =
                         getCircuitBreaker ident search_breaker_options circuitBreakers
                  in (errors,
                      tasks @ [\<lparr> task_source = sourceName defn,
                                 task_extract = extractor,
                                 task_promise = dispatch_promise circuitBreaker defn
                                                  trimmedQuery integrationConfig \<rparr>],
                      circuitBreakers'))))"

datatype early_reply = EmptyQuery | CredentialStorageUnavailable

text \<open>
  The handler up to \<open>Promise.allSettled\<close>.  The query has passed the \<open>typeof\<close> test (it
  is a string); \<open>integrations\<close> is what \<open>getIntegrationsWithSecrets()\<close> settles to.  The
  result is either the early reply or \<open>errors\<close>, \<open>tasks\<close> and the breakers after the loop.
\<close>

definition search_dispatch ::
  "string \<Rightarrow> jsval list option \<Rightarrow> (js_error + (string \<rightharpoonup> config))
     \<Rightarrow> (string \<times> 'x integration) list \<Rightarrow> (string \<rightharpoonup> CircuitBreaker)
     \<Rightarrow> early_reply + (error_entry list \<times> 'x task list \<times> (string \<rightharpoonup> CircuitBreaker))" where
  "search_dispatch query activeFilters integrations integrationRegistry circuitBreakers =
     (let trimmedQuery = trim query
      in if trimmedQuery = [] then Inl EmptyQuery
         else (case integrations of
                 Inl e \<Rightarrow> Inl CredentialStorageUnavailable
               | Inr resolved \<Rightarrow>
                   Inr (foldl (search_step trimmedQuery (safeFilters activeFilters) resolved)
                          ([], [], circuitBreakers) integrationRegistry)))"

text \<open>
  \<open>handleApiError(error, source, correlationId)\<close> of the integration utilities.  It reads
  \<open>error.name\<close> and \<open>error.response\<close>, so it throws a \<open>TypeError\<close> when the thrown value is
  \<open>undefined\<close> or \<open>null\<close>; on an \<open>Error\<close> object it returns the message for the user, which
  \<open>user_message\<close> stands for.
\<close>

definition undefined_reason_error :: js_error where
  "undefined_reason_error = JsError ''Cannot read properties of undefined'' None None"

definition handleApiError ::
  "(js_error \<Rightarrow> string \<Rightarrow> string) \<Rightarrow> js_error \<Rightarrow> string \<Rightarrow> js_error + string" where
  "handleApiError user_message error integrationName =
     (case error of
        ThrownUndefined \<Rightarrow> Inl undefined_reason_error
      | JsError m c s \<Rightarrow> Inr (user_message error integrationName))"

text \<open>
  The body of \<open>settled.forEach\<close>: one settled task is folded into \<open>results\<close> and
  \<open>errors\<close>.  Both calls of \<open>handleApiError\<close> stand outside the \<open>try\<close> block (one in its
  \<open>catch\<close> clause, one in the \<open>else\<close> branch), so what it throws leaves the callback
  (\<open>Inl\<close>).
\<close>

definition collect_step ::
  "(js_error \<Rightarrow> string \<Rightarrow> string)
     \<Rightarrow> search_result list \<times> error_entry list
     \<Rightarrow> 'x task \<times> provider_value outcome
     \<Rightarrow> js_error + (search_result list \<times> error_entry list)" where
  "collect_step user_message acc ts =
     (case acc of (results, errors) \<Rightarrow>
      case ts of (tk, s) \<Rightarrow>
        (case s of
           Fulfilled v \<Rightarrow>
             (case task_extract tk v of
                Inl e \<Rightarrow>
                  (case handleApiError user_message e (task_source tk) of
                     Inl thrown \<Rightarrow> Inl thrown
                   | Inr errorMessage \<Rightarrow> Inr (results, errors @ [(task_source tk, errorMessage)]))
              | Inr None \<Rightarrow> Inr (results, errors)
              | Inr (Some arr) \<Rightarrow>
                  if length arr > 0 then Inr (results @ arr, errors) else Inr (results, errors))
         | Rejected reason \<Rightarrow>
             (case handleApiError user_message reason (task_source tk) of
                Inl thrown \<Rightarrow> Inl thrown
              | Inr errorMessage \<Rightarrow> Inr (results, errors @ [(task_source tk, errorMessage)]))))"

text \<open>\<open>forEach\<close> over the settled tasks; it stops at the first callback that throws.\<close>

fun collect_from ::
  "(js_error \<Rightarrow> string \<Rightarrow> string) \<Rightarrow> search_result list \<times> error_entry list
     \<Rightarrow> ('x task \<times> provider_value outcome) list
     \<Rightarrow> js_error + (search_result list \<times> error_entry list)" where
  "collect_from user_message acc [] = Inr acc"
| "collect_from user_message acc (x # xs) =
     (case collect_step user_message acc x of
        Inl thrown \<Rightarrow> Inl thrown
      | Inr acc' \<Rightarrow> collect_from user_message acc' xs)"

text \<open>
  After \<open>Promise.allSettled\<close>: \<open>settled\<close> holds one settlement for each task, in the order
  of \<open>tasks\<close>, whatever the order in which the promises settled.
\<close>

definition collect ::
  "(js_error \<Rightarrow> string \<Rightarrow> string) \<Rightarrow> 'x task list \<Rightarrow> provider_value outcome list
     \<Rightarrow> error_entry list \<Rightarrow> js_error + (search_result list \<times> error_entry list)" where
  "collect user_message tasks settled errors =
     collect_from user_message ([], errors) (zip tasks settled)"

text \<open>
  \<open>sortResultsByDate\<close>: newest first; results without a valid date go to the end and
  keep their order.  \<open>date_of\<close> is the time value of a valid \<open>updated\<close> field;
  \<open>date_first a b\<close> says that the comparator does not put \<open>b\<close> before \<open>a\<close>.
\<close>

definition date_of :: "(string \<Rightarrow> int option) \<Rightarrow> search_result \<Rightarrow> int option" where
  "date_of Date_parse r =
     (case updated r of
        None \<Rightarrow> None
      | Some s \<Rightarrow> if s = [] then None else Date_parse s)"

definition date_first :: "(string \<Rightarrow> int option) \<Rightarrow> search_result \<Rightarrow> search_result \<Rightarrow> bool" where
  "date_first Date_parse a b =
     (case (date_of Date_parse a, date_of Date_parse b) of
        (Some dateA, Some dateB) \<Rightarrow> dateB - dateA \<le> 0
      | (Some dateA, None) \<Rightarrow> True
      | (None, Some dateB) \<Rightarrow> False
      | (None, None) \<Rightarrow> True)"

fun insert_by_date ::
  "(string \<Rightarrow> int option) \<Rightarrow> search_result \<Rightarrow> search_result list \<Rightarrow> search_result list" where
  "insert_by_date Date_parse a [] = [a]"
| "insert_by_date Date_parse a (b # bs) =
     (if date_first Date_parse a b then a # b # bs else b # insert_by_date Date_parse a bs)"

definition sortResultsByDate ::
  "(string \<Rightarrow> int option) \<Rightarrow> search_result list \<Rightarrow> search_result list" where
  "sortResultsByDate Date_parse results = foldr (insert_by_date Date_parse) results []"

text \<open>
  The end of the handler: the reply built from \<open>results\<close> and \<open>errors\<close>.
  \<open>enableBM25Scoring\<close> is the application setting.  The two \<open>catch\<close> branches are left
  out: on results whose fields are strings neither the scorer nor the sort throws.
\<close>

definition search_reply ::
  "bool \<Rightarrow> (string \<Rightarrow> int option) \<Rightarrow> int \<Rightarrow> string
     \<Rightarrow> search_result list \<times> error_entry list \<Rightarrow> search_result list \<times> error_entry list" where
  "search_reply enableBM25Scoring Date_parse t trimmedQuery re =
     (case re of (results, errors) \<Rightarrow>
        (if enableBM25Scoring \<and> length results > 0
         then calculateRelevanceScores Date_parse t results trimmedQuery
         else sortResultsByDate Date_parse results,
         errors))"

text \<open>
  The handler from \<open>Promise.allSettled\<close> on.  When a callback of \<open>forEach\<close> throws, the
  promise of the handler is rejected and no reply is sent (\<open>None\<close>).
\<close>

definition search_finish ::
  "bool \<Rightarrow> (string \<Rightarrow> int option) \<Rightarrow> int \<Rightarrow> string
     \<Rightarrow> js_error + (search_result list \<times> error_entry list)
     \<Rightarrow> (search_result list \<times> error_entry list) option" where
  "search_finish enableBM25Scoring Date_parse t trimmedQuery collected =
     (case collected of
        Inl thrown \<Rightarrow> None
      | Inr re \<Rightarrow> Some (search_reply enableBM25Scoring Date_parse t trimmedQuery re))"

text \<open>
  The composition the specification describes for a dispatched task,
  \<open>breaker.execute(() => retry.execute(() => provider.search(query, config)))\<close>, kept apart
  from \<open>dispatch_promise\<close>, which is the one of the source.
\<close>

definition spec_dispatch_promise ::
  "CircuitBreaker \<Rightarrow> RetryMechanism \<Rightarrow> (nat \<Rightarrow> real) \<Rightarrow> 'x integration \<Rightarrow> string \<Rightarrow> config
     \<Rightarrow> 'x world_scheme \<Rightarrow> provider_value outcome \<times> CircuitBreaker \<times> 'x world_scheme" where
  "spec_dispatch_promise circuitBreaker retry rnd defn trimmedQuery integrationConfig =
     CircuitBreaker_execute circuitBreaker
       (RetryMechanism_execute retry rnd (searchHandler defn trimmedQuery integrationConfig))"

section \<open>Descriptions of the dispatch loop used in the statements\<close>

text \<open>The registry entries for which the loop pushes a task.\<close>

definition dispatched :: "string list \<Rightarrow> (string \<rightharpoonup> config) \<Rightarrow> string \<times> 'x integration \<Rightarrow> bool" where
  "dispatched filters resolved entry =
     (case entry of (ident, defn) \<Rightarrow>
        isEnabled (config_of resolved ident) \<and> filterAllowed filters defn \<and>
        \<not> truthy_message (validationMessage defn (config_of resolved ident)))"

text \<open>The task pushed for a registry entry, given the breakers at the start of the loop.\<close>

definition task_of ::
  "string \<Rightarrow> (string \<rightharpoonup> config) \<Rightarrow> (string \<rightharpoonup> CircuitBreaker) \<Rightarrow> string \<times> 'x integration
     \<Rightarrow> 'x task" where
  "task_of trimmedQuery resolved circuitBreakers entry =
     (case entry of (ident, defn) \<Rightarrow>
        \<lparr> task_source = sourceName defn,
          task_extract = (case resultExtractor defn of Some f \<Rightarrow> f | None \<Rightarrow> default_extractor),
          task_promise = dispatch_promise
                           (fst (getCircuitBreaker ident search_breaker_options circuitBreakers))
                           defn trimmedQuery (config_of resolved ident) \<rparr>)"

text \<open>
  The candidates in the words of the specification: the stored \<open>enabled\<close> is true, the
  \<open>activeFilters\<close> of the request are empty or contain the \<open>filterKey\<close>, and the validation
  does not return a result other than \<open>null\<close>.
\<close>

definition spec_candidate ::
  "jsval list option \<Rightarrow> (string \<rightharpoonup> config) \<Rightarrow> string \<times> 'x integration \<Rightarrow> bool" where
  "spec_candidate activeFilters resolved entry =
     (case entry of (ident, defn) \<Rightarrow>
        (case resolved ident of
           None \<Rightarrow> False
         | Some cfg \<Rightarrow>
             cfg ''enabled'' = Some (JBool True) \<and>
             (case activeFilters of
                None \<Rightarrow> True
              | Some entries \<Rightarrow> entries = [] \<or> JStr (filterKey defn) \<in> set entries) \<and>
             (case validateSearchConfig defn of
                None \<Rightarrow> True
              | Some validate \<Rightarrow> validate cfg = None)))"

text \<open>
  The rule the handler follows, written out on the request and the stored configurations:
  the \<open>enabled\<close> field is absent, \<open>undefined\<close> or truthy; the filter tokens (the string
  entries of \<open>activeFilters\<close> with a character that is not white space) are none or contain
  the \<open>filterKey\<close>; the validation is absent or returns \<open>null\<close> or the empty string.  A
  provider without a stored configuration has the empty one.
\<close>

definition dispatch_rule ::
  "jsval list option \<Rightarrow> (string \<rightharpoonup> config) \<Rightarrow> string \<times> 'x integration \<Rightarrow> bool" where
  "dispatch_rule activeFilters resolved entry =
     (case entry of (ident, defn) \<Rightarrow>
        (let cfg = (case resolved ident of None \<Rightarrow> Map.empty | Some c \<Rightarrow> c);
             tokens = (case activeFilters of
                         None \<Rightarrow> []
                       | Some entries \<Rightarrow> [s. JStr s \<leftarrow> entries, \<exists>c \<in> set s. \<not> is_space c])
         in (case cfg ''enabled'' of
               None \<Rightarrow> True
             | Some JUndefined \<Rightarrow> True
             | Some JNull \<Rightarrow> False
             | Some (JBool b) \<Rightarrow> b
             | Some (JNum x) \<Rightarrow> x \<noteq> 0
             | Some (JStr s) \<Rightarrow> s \<noteq> []) \<and>
            (tokens = [] \<or> filterKey defn \<in> set tokens) \<and>
            (case validateSearchConfig defn of
               None \<Rightarrow> True
             | Some validate \<Rightarrow> validate cfg = None \<or> validate cfg = Some [])))"

text \<open>
  \<open>handleApiError\<close> returns on this settled task: neither the rejection reason nor what
  the extractor throws is \<open>undefined\<close> or \<open>null\<close>.
\<close>

definition reportable :: "'x task \<times> provider_value outcome \<Rightarrow> bool" where
  "reportable ts =
     (case ts of (tk, s) \<Rightarrow>
        (case s of
           Fulfilled v \<Rightarrow> task_extract tk v \<noteq> Inl ThrownUndefined
         | Rejected reason \<Rightarrow> reason \<noteq> ThrownUndefined))"

text \<open>\<open>r'\<close> is the result \<open>r\<close>, but for the \<open>relevanceScore\<close> field.\<close>

definition scored_copy :: "search_result \<Rightarrow> search_result \<Rightarrow> bool" where
  "scored_copy r' r = (r'\<lparr>relevanceScore := relevanceScore r\<rparr> = r)"

text \<open>What a settled task adds to \<open>results\<close>.\<close>

definition contribution :: "'x task \<times> provider_value outcome \<Rightarrow> search_result list" where
  "contribution ts =
     (case ts of (tk, s) \<Rightarrow>
        (case s of
           Fulfilled v \<Rightarrow> (case task_extract tk v of Inr (Some arr) \<Rightarrow> arr | _ \<Rightarrow> [])
         | Rejected reason \<Rightarrow> []))"

section \<open>Concrete instances used in the examples\<close>

text \<open>The breaker of the search handler after three failures at the clock readings 10, 20, 30.\<close>

definition tripped_breaker :: CircuitBreaker where
  "tripped_breaker = record_failures [10, 20, 30] (new_CircuitBreaker search_breaker_options)"

text \<open>A world that counts the calls of a provider.\<close>

record probe = world +
  calls :: nat

definition connection_reset :: js_error where
  "connection_reset = JsError ''socket hang up'' (Some ''ECONNRESET'') None"

text \<open>A provider whose first call fails with a transient error and whose later calls succeed;
  every call takes 5 ms.\<close>

definition flaky_search :: "string \<Rightarrow> config \<Rightarrow> (provider_value, unit probe_ext) async" where
  "flaky_search query cfg w =
     (if calls w = 0 then Rejected connection_reset else Fulfilled (VArray []),
      w\<lparr>now := now w + 5, calls := calls w + 1\<rparr>)"

definition flaky_integration :: "unit probe_ext integration" where
  "flaky_integration =
     \<lparr> sourceName = ''Flaky'', filterKey = ''flaky'', validateSearchConfig = None,
       resultExtractor = None, searchHandler = flaky_search \<rparr>"

text \<open>A result whose \<open>updated\<close> field is no date.\<close>

definition undated_result :: search_result where
  "undated_result =
     \<lparr> title = Some ''foo'', description = None, url = None, source = Some ''Steady'',
       result_type = None, status = None, updated = Some ''not-a-date'', tags = TagsAbsent,
       comments = None, relevanceScore = None \<rparr>"

text \<open>A provider that always returns one result.\<close>

definition steady_search :: "string \<Rightarrow> config \<Rightarrow> (provider_value, unit probe_ext) async" where
  "steady_search query cfg w =
     (Fulfilled (VArray [undated_result]), w\<lparr>now := now w + 5, calls := calls w + 1\<rparr>)"

definition steady_integration :: "unit probe_ext integration" where
  "steady_integration =
     \<lparr> sourceName = ''Steady'', filterKey = ''steady'', validateSearchConfig = None,
       resultExtractor = None, searchHandler = steady_search \<rparr>"

text \<open>A provider whose validation asks for a field \<open>apiToken\<close>.\<close>

definition token_validator :: "config \<Rightarrow> string option" where
  "token_validator cfg =
     (case cfg ''apiToken'' of
        Some (JStr s) \<Rightarrow> if trim s = [] then Some ''configuration is incomplete'' else None
      | _ \<Rightarrow> Some ''configuration is incomplete'')"

definition locked_integration :: "unit probe_ext integration" where
  "locked_integration =
     \<lparr> sourceName = ''Locked'', filterKey = ''locked'',
       validateSearchConfig = Some token_validator,
       resultExtractor = None, searchHandler = steady_search \<rparr>"

text \<open>Stored configurations: every provider enabled; every provider without the field.\<close>

definition enabled_configs :: "string \<rightharpoonup> config" where
  "enabled_configs ident = Some [''enabled'' \<mapsto> JBool True]"

definition unset_configs :: "string \<rightharpoonup> config" where
  "unset_configs ident = Some Map.empty"

definition sample_registry :: "(string \<times> unit probe_ext integration) list" where
  "sample_registry =
     [(''steady'', steady_integration), (''flaky'', flaky_integration),
      (''locked'', locked_integration)]"

text \<open>A date parser that knows one date and rejects every other string.\<close>

definition sample_Date_parse :: "string \<Rightarrow> int option" where
  "sample_Date_parse s =
     (if s = ''2024-01-01T00:00:00.000Z'' then Some 1704067200000 else None)"



section \<open>Circuit breaker: invariants\<close>

lemma threshold_new_pos: "0 < threshold (new_CircuitBreaker options)"
  by (simp add: new_CircuitBreaker_def or_default_def split: option.splits)

lemma threshold_setState [simp]: "threshold (setState s b) = threshold b"
  by (simp add: setState_def)

lemma state_setState [simp]: "state (setState s b) = s"
  by (simp add: setState_def)

lemma failureCount_setState [simp]: "failureCount (setState s b) = failureCount b"
  by (simp add: setState_def)

lemma resetTimeout_setState [simp]: "resetTimeout (setState s b) = resetTimeout b"
  by (simp add: setState_def)

lemma threshold_onFailure [simp]: "threshold (onFailure t b) = threshold b"
  by (simp add: onFailure_def Let_def)

lemma threshold_onSuccess [simp]: "threshold (onSuccess b) = threshold b"
  by (simp add: onSuccess_def)

lemma failureCount_onFailure [simp]: "failureCount (onFailure t b) = Suc (failureCount b)"
  by (simp add: onFailure_def Let_def)

lemma onFailure_opens:
  "threshold b \<le> Suc (failureCount b) \<Longrightarrow>
     state (onFailure t b) = OPEN \<and> nextAttempt (onFailure t b) = Some (t + resetTimeout b)"
  by (simp add: onFailure_def Let_def)

lemma reachable_threshold_pos: "reachable b \<Longrightarrow> 0 < threshold b"
  by (induction rule: reachable.induct) (simp_all add: threshold_new_pos)

lemma reachable_tripped:
  "reachable b \<Longrightarrow> state b \<noteq> CLOSED \<Longrightarrow> threshold b \<le> failureCount b"
proof (induction rule: reachable.induct)
  case (r_new options)
  then show ?case by (simp add: new_CircuitBreaker_def)
next
  case (r_trial b)
  then show ?case by simp
next
  case (r_success b)
  then show ?case by (simp add: onSuccess_def)
next
  case (r_failure b t)
  then show ?case
    by (cases "threshold b \<le> Suc (failureCount b)") (auto simp: onFailure_def Let_def)
qed

lemma failureCount_record_failures:
  "failureCount (record_failures ts b) = failureCount b + length ts"
  unfolding record_failures_def by (induction ts arbitrary: b) simp_all

lemma threshold_record_failures: "threshold (record_failures ts b) = threshold b"
  unfolding record_failures_def by (induction ts arbitrary: b) simp_all

lemma record_failures_snoc:
  "record_failures (ts @ [t]) b = onFailure t (record_failures ts b)"
  by (simp add: record_failures_def)

lemma record_failures_opens:
  assumes "0 < threshold b" and "length ts = threshold b"
  shows "state (record_failures ts b) = OPEN"
proof -
  from assms obtain us u where ts: "ts = us @ [u]"
    by (cases ts rule: rev_cases) auto
  let ?c = "record_failures us b"
  have "threshold ?c \<le> Suc (failureCount ?c)"
    using assms ts by (simp add: failureCount_record_failures threshold_record_failures)
  then show ?thesis
    unfolding ts record_failures_snoc by (simp add: onFailure_opens)
qed

lemma execute_open_short_circuit:
  "state b = OPEN \<Longrightarrow> before_nextAttempt (now w) b \<Longrightarrow>
     CircuitBreaker_execute b fn w = (Rejected circuit_open_error, b, w)"
  by (simp add: CircuitBreaker_execute_def)

lemma reachable_record_failures: "reachable b \<Longrightarrow> reachable (record_failures ts b)"
  unfolding record_failures_def
  by (induction ts arbitrary: b) (simp_all add: r_failure)

lemma tripped_breaker_eq:
  "tripped_breaker =
     \<lparr> threshold = 3, timeout = 30000, resetTimeout = 60000, failureCount = 3,
       lastFailure = Some 30, state = OPEN, nextAttempt = Some 60030 \<rparr>"
  by (simp add: tripped_breaker_def record_failures_def new_CircuitBreaker_def
      search_breaker_options_def or_default_def onFailure_def Let_def setState_def)

lemma reachable_tripped_breaker: "reachable tripped_breaker"
  unfolding tripped_breaker_def by (rule reachable_record_failures) (rule r_new)

section \<open>Retry mechanism: the constructor\<close>

text \<open>Whatever the options say, the constructed mechanism applies jitter.\<close>

lemma new_RetryMechanism_jitter: "jitter (new_RetryMechanism options) = True"
  by (simp add: new_RetryMechanism_def split: option.splits bool.splits)

section \<open>Search orchestrator: the dispatch loop and the collection\<close>

lemma getCircuitBreaker_stable:
  "fst (getCircuitBreaker j opts (snd (getCircuitBreaker i opts cbs)))
     = fst (getCircuitBreaker j opts cbs)"
  by (auto simp: getCircuitBreaker_def split: option.splits)

lemma task_of_stable:
  "task_of q res (snd (getCircuitBreaker i search_breaker_options cbs)) = task_of q res cbs"
  by (rule ext) (simp add: task_of_def getCircuitBreaker_stable split: prod.splits)

lemma search_step_cases:
  "search_step q f res (es, ts, cbs) e =
     (if dispatched f res e
      then (es, ts @ [task_of q res cbs e], snd (getCircuitBreaker (fst e) search_breaker_options cbs))
      else (if isEnabled (config_of res (fst e)) \<and> filterAllowed f (snd e)
            then es @ [(sourceName (snd e), or_empty (validationMessage (snd e) (config_of res (fst e))))]
            else es, ts, cbs))"
  by (cases e) (auto simp: search_step_def dispatched_def task_of_def Let_def split: prod.splits)

lemma foldl_search_step_tasks:
  "fst (snd (foldl (search_step q f res) (es, ts, cbs) reg))
     = ts @ map (task_of q res cbs) (filter (dispatched f res) reg)"
proof (induction reg arbitrary: es ts cbs)
  case Nil
  show ?case by simp
next
  case (Cons e reg)
  show ?case
  proof (cases "dispatched f res e")
    case True
    then show ?thesis
      by (simp add: search_step_cases Cons.IH task_of_stable)
  next
    case False
    then show ?thesis
      by (simp add: search_step_cases Cons.IH)
  qed
qed

lemma search_dispatch_tasks:
  assumes "search_dispatch query af (Inr resolved) reg cbs = Inr (errors, tasks, cbs')"
  shows "tasks = map (task_of (trim query) resolved cbs)
                   (filter (dispatched (safeFilters af) resolved) reg)"
proof -
  have "trim query \<noteq> []"
    using assms by (auto simp: search_dispatch_def Let_def split: if_splits)
  then have "foldl (search_step (trim query) (safeFilters af) resolved) ([], [], cbs) reg
               = (errors, tasks, cbs')"
    using assms by (simp add: search_dispatch_def Let_def)
  then have "tasks = fst (snd (foldl (search_step (trim query) (safeFilters af) resolved)
                                 ([], [], cbs) reg))"
    by simp
  then show ?thesis by (simp add: foldl_search_step_tasks)
qed

lemma search_dispatch_total:
  "trim query \<noteq> [] \<Longrightarrow> \<exists>errors tasks cbs'.
     search_dispatch query af (Inr resolved) reg cbs = Inr (errors, tasks, cbs')"
  by (simp add: search_dispatch_def Let_def) (metis prod_cases3)

lemma concat_map_nth_block:
  assumes "i < length xs"
  shows "concat (map f xs) = concat (map f (take i xs)) @ f (xs ! i) @ concat (map f (drop (Suc i) xs))"
proof -
  have "xs = take i xs @ xs ! i # drop (Suc i) xs"
    using assms by (rule id_take_nth_drop)
  then have "concat (map f xs) = concat (map f (take i xs @ xs ! i # drop (Suc i) xs))"
    by simp
  then show ?thesis by simp
qed

section \<open>Concrete instances: the flaky provider\<close>

lemma execute_single_call:
  "CircuitBreaker_execute cb fn w =
     (if state cb = OPEN \<and> before_nextAttempt (now w) cb
      then (Rejected circuit_open_error, cb, w)
      else (case fn w of (r, w') \<Rightarrow>
              (r, (case r of Fulfilled v \<Rightarrow> onSuccess (enter cb)
                           | Rejected e \<Rightarrow> onFailure (now w') (enter cb)), w')))"
  by (simp add: CircuitBreaker_execute_def split: prod.splits outcome.splits)

lemma trim_foo: "trim ''foo'' = ''foo''"
  by (simp add: trim_def is_space_def)

lemma flaky_dispatch:
  "search_dispatch ''foo'' None (Inr Map.empty) [(''flaky'', flaky_integration)] Map.empty
     = Inr ([], [task_of ''foo'' Map.empty Map.empty (''flaky'', flaky_integration)],
            [''flaky'' \<mapsto> new_CircuitBreaker search_breaker_options])"
  by (simp add: search_dispatch_def trim_foo search_step_cases dispatched_def isEnabled_def
      config_of_def filterAllowed_def safeFilters_def truthy_message_def validationMessage_def
      flaky_integration_def getCircuitBreaker_def)

lemma flaky_promise:
  "task_promise (task_of ''foo'' Map.empty Map.empty (''flaky'', flaky_integration))
     \<lparr>now = 0, calls = 0\<rparr>
   = (Rejected connection_reset,
      onFailure 5 (new_CircuitBreaker search_breaker_options), \<lparr>now = 5, calls = 1\<rparr>)"
  by (simp add: task_of_def dispatch_promise_def getCircuitBreaker_def CircuitBreaker_execute_def
      flaky_integration_def flaky_search_def new_CircuitBreaker_def enter_def)

lemma transient_connection_reset: "isTransientError connection_reset"
  by (simp add: isTransientError_def connection_reset_def transientCodes_def)

lemma defaultRetry_eq:
  "defaultRetryMechanism = \<lparr>maxRetries = 3, baseDelay = 1000, maxDelay = 30000, jitter = True\<rparr>"
  by (simp add: defaultRetryMechanism_def new_RetryMechanism_def or_default_def)

lemma flaky_retry:
  "RetryMechanism_execute defaultRetryMechanism (\<lambda>k. 0) (flaky_search ''foo'' Map.empty)
     \<lparr>now = 0, calls = 0\<rparr>
   = (Fulfilled (VArray []), \<lparr>now = 510, calls = 2\<rparr>)"
proof -
  let ?r = "\<lparr>maxRetries = 3, baseDelay = 1000, maxDelay = 30000, jitter = True\<rparr>"
  have d: "calculateDelay ?r 1 0 = 500"
    by (simp add: calculateDelay_def)
  have second: "retry_loop ?r (\<lambda>k. 0) (flaky_search ''foo'' Map.empty) (1 + 1) connection_reset
                  \<lparr>now = 505, calls = 1\<rparr>
                = (Fulfilled (VArray []), \<lparr>now = 510, calls = 2\<rparr>)"
    by (subst retry_loop.simps) (simp add: flaky_search_def)
  have first: "retry_loop ?r (\<lambda>k. 0) (flaky_search ''foo'' Map.empty) 1 ThrownUndefined
                 \<lparr>now = 0, calls = 0\<rparr>
               = retry_loop ?r (\<lambda>k. 0) (flaky_search ''foo'' Map.empty) (1 + 1) connection_reset
                   \<lparr>now = 505, calls = 1\<rparr>"
    by (subst retry_loop.simps)
      (simp add: flaky_search_def transient_connection_reset d sleep_def)
  show ?thesis
    unfolding RetryMechanism_execute_def defaultRetry_eq first second ..
qed

lemma flaky_spec_promise:
  "spec_dispatch_promise (new_CircuitBreaker search_breaker_options) defaultRetryMechanism (\<lambda>k. 0)
     flaky_integration ''foo'' Map.empty \<lparr>now = 0, calls = 0\<rparr>
   = (Fulfilled (VArray []), onSuccess (new_CircuitBreaker search_breaker_options),
      \<lparr>now = 510, calls = 2\<rparr>)"
proof -
  have "searchHandler flaky_integration = flaky_search"
    by (simp add: flaky_integration_def)
  then show ?thesis
    by (simp add: spec_dispatch_promise_def CircuitBreaker_execute_def flaky_retry
        new_CircuitBreaker_def enter_def)
qed

lemma flaky_dispatched:
  "dispatched (safeFilters None) Map.empty (''flaky'', flaky_integration)"
  by (simp add: dispatched_def isEnabled_def config_of_def filterAllowed_def safeFilters_def
      truthy_message_def validationMessage_def flaky_integration_def)

section \<open>Concrete instances: the sample registry\<close>

lemma token_validator_empty: "token_validator Map.empty = Some ''configuration is incomplete''"
  by (simp add: token_validator_def)

lemma sample_dispatch:
  "search_dispatch ''foo'' None (Inr Map.empty) sample_registry Map.empty
     = Inr ([(''Locked'', ''configuration is incomplete'')],
            [task_of ''foo'' Map.empty Map.empty (''steady'', steady_integration),
             task_of ''foo'' Map.empty Map.empty (''flaky'', flaky_integration)],
            [''steady'' \<mapsto> new_CircuitBreaker search_breaker_options,
             ''flaky'' \<mapsto> new_CircuitBreaker search_breaker_options])"
  by (simp add: search_dispatch_def trim_foo sample_registry_def search_step_cases dispatched_def
      isEnabled_def config_of_def filterAllowed_def safeFilters_def truthy_message_def
      validationMessage_def flaky_integration_def steady_integration_def locked_integration_def
      token_validator_empty getCircuitBreaker_def or_empty_def Let_def task_of_def)

section \<open>Relevance scorer: tokens, recency and the BM25 summand\<close>

lemmas char_class_defs = is_word_char_def is_space_def toLowerCase_def toLowerCase_char_def
  upper_chars_def lower_chars_def digit_chars_def latin1_upper_chars_def latin1_lower_chars_def

lemma tokenize_foo: "tokenize ''foo'' = [''foo'']"
  by (simp add: tokenize_def split_ws_def char_class_defs STOP_WORDS_def)

lemma tokenize_stop_words: "tokenize ''The of A!'' = []"
  by (simp add: tokenize_def split_ws_def char_class_defs STOP_WORDS_def)

lemma tokens_undated_result: "extractSearchableText undated_result = [''foo'']"
  by (simp add: extractSearchableText_def undated_result_def or_empty_def tokenize_def split_ws_def
      char_class_defs STOP_WORDS_def)

lemma recency_missing:
  "calculateRecencyBoost Date_parse t None = Num 0.5"
  "calculateRecencyBoost Date_parse t (Some []) = Num 0.5"
  by (simp_all add: calculateRecencyBoost_def)

lemma recency_valid:
  "s \<noteq> [] \<Longrightarrow> Date_parse s = Some u \<Longrightarrow>
     calculateRecencyBoost Date_parse t (Some s)
       = Num (max 0.1 (min 1.0 (exp (- ((real_of_int t - real_of_int u) / 86400000)
                                       * recencyDecayPerDay))))"
  by (simp add: calculateRecencyBoost_def Let_def)






section \<open>The reply keeps the collected results\<close>

lemma set_insert_by_score: "set (insert_by_score a bs) = insert a (set bs)"
  by (induction bs) auto

lemma set_sort_by_score: "set (sort_by_score rs) = set rs"
  unfolding sort_by_score_def by (induction rs) (simp_all add: set_insert_by_score)

lemma set_insert_by_date: "set (insert_by_date P a bs) = insert a (set bs)"
  by (induction bs) auto

lemma set_sortResultsByDate: "set (sortResultsByDate P rs) = set rs"
  unfolding sortResultsByDate_def by (induction rs) (simp_all add: set_insert_by_date)

lemma scored_copy_refl: "scored_copy r r"
  by (simp add: scored_copy_def)

lemma scored_copy_scoreResult: "scored_copy (scoreResult P t q docs avg (r, tokens)) r"
  by (simp add: scored_copy_def scoreResult_def Let_def)

lemma calculateRelevanceScores_keeps:
  assumes "r \<in> set results"
  shows "\<exists>r' \<in> set (calculateRelevanceScores P t results query). scored_copy r' r"
proof (cases "results = [] \<or> query = [] \<or> tokenize query = []")
  case True
  then have "calculateRelevanceScores P t results query = results"
    using assms by (auto simp: calculateRelevanceScores_def Let_def)
  then show ?thesis using assms scored_copy_refl by auto
next
  case False
  let ?docs = "map extractSearchableText results"
  let ?avg = "real (sum_list (map length ?docs)) / real (length ?docs)"
  let ?f = "scoreResult P t (tokenize query) ?docs ?avg"
  have out: "calculateRelevanceScores P t results query
               = sort_by_score (map ?f (zip results ?docs))"
    using False by (simp add: calculateRelevanceScores_def Let_def)
  have "zip results ?docs = map (\<lambda>x. (x, extractSearchableText x)) results"
    by (induction results) simp_all
  then have "(r, extractSearchableText r) \<in> set (zip results ?docs)"
    using assms by auto
  then have "?f (r, extractSearchableText r) \<in> set (calculateRelevanceScores P t results query)"
    unfolding out set_sort_by_score set_map by (rule imageI)
  then show ?thesis
    using scored_copy_scoreResult by blast
qed

lemma search_reply_keeps:
  assumes "r \<in> set results"
  shows "\<exists>r' \<in> set (fst (search_reply flag P t q (results, errors))). scored_copy r' r"
proof (cases "flag \<and> length results > 0")
  case True
  then show ?thesis
    using calculateRelevanceScores_keeps [OF assms] by (simp add: search_reply_def)
next
  case False
  then have "fst (search_reply flag P t q (results, errors)) = sortResultsByDate P results"
    by (auto simp: search_reply_def)
  then show ?thesis
    using assms scored_copy_refl by (auto simp: set_sortResultsByDate)
qed

section \<open>Search orchestrator: the dispatch rule and the collection\<close>

lemma trim_empty_iff: "trim s = [] \<longleftrightarrow> (\<forall>c \<in> set s. is_space c)"
proof
  assume "trim s = []"
  then have e: "dropWhile is_space (rev (dropWhile is_space s)) = []"
    by (simp add: trim_def)
  have "dropWhile is_space s = []"
  proof (rule ccontr)
    assume ne: "dropWhile is_space s \<noteq> []"
    then have "\<not> is_space (hd (dropWhile is_space s))"
      by (rule hd_dropWhile)
    moreover have "hd (dropWhile is_space s) \<in> set (rev (dropWhile is_space s))"
      using ne by simp
    moreover have "\<forall>c \<in> set (rev (dropWhile is_space s)). is_space c"
      using e by (rule iffD1 [OF dropWhile_eq_Nil_conv])
    ultimately show False by blast
  qed
  then show "\<forall>c \<in> set s. is_space c"
    by (rule iffD1 [OF dropWhile_eq_Nil_conv])
next
  assume "\<forall>c \<in> set s. is_space c"
  then have d: "dropWhile is_space s = []"
    by (rule iffD2 [OF dropWhile_eq_Nil_conv])
  show "trim s = []"
    unfolding trim_def d by simp
qed

lemma safeFilters_tokens:
  "safeFilters af =
     (case af of None \<Rightarrow> [] | Some entries \<Rightarrow> [s. JStr s \<leftarrow> entries, \<exists>c \<in> set s. \<not> is_space c])"
proof (cases af)
  case None
  then show ?thesis by (simp add: safeFilters_def)
next
  case (Some entries)
  show ?thesis
    unfolding Some safeFilters_def
    by (induction entries) (auto simp: trim_empty_iff split: jsval.splits)
qed

lemma isEnabled_cases:
  "isEnabled cfg =
     (case cfg ''enabled'' of
        None \<Rightarrow> True
      | Some JUndefined \<Rightarrow> True
      | Some JNull \<Rightarrow> False
      | Some (JBool b) \<Rightarrow> b
      | Some (JNum x) \<Rightarrow> x \<noteq> 0
      | Some (JStr s) \<Rightarrow> s \<noteq> [])"
  by (simp add: isEnabled_def split: option.splits jsval.splits)

lemma dispatched_rule:
  "dispatched (safeFilters af) resolved e = dispatch_rule af resolved e"
proof (cases e)
  case (Pair ident defn)
  have v: "(\<not> truthy_message (validationMessage defn cfg)) =
           (case validateSearchConfig defn of
              None \<Rightarrow> True
            | Some validate \<Rightarrow> validate cfg = None \<or> validate cfg = Some [])" for cfg
    by (auto simp: truthy_message_def validationMessage_def split: option.splits)
  show ?thesis
    unfolding Pair dispatched_def dispatch_rule_def
    by (simp add: isEnabled_cases [symmetric] v [symmetric] safeFilters_tokens [symmetric]
        filterAllowed_def config_of_def Let_def)
qed

lemma collect_step_reportable:
  assumes "reportable x"
  shows "\<exists>es'. collect_step h (rs, es) x = Inr (rs @ contribution x, es')"
proof (cases x)
  case (Pair tk s)
  show ?thesis
  proof (cases s)
    case (Fulfilled v)
    show ?thesis
    proof (cases "task_extract tk v")
      case (Inl e)
      then have "e \<noteq> ThrownUndefined"
        using assms Pair Fulfilled by (simp add: reportable_def)
      then show ?thesis
        using Pair Fulfilled Inl
        by (cases e) (simp_all add: collect_step_def contribution_def handleApiError_def)
    next
      case (Inr a)
      then show ?thesis
        using Pair Fulfilled
        by (cases a) (simp_all add: collect_step_def contribution_def)
    qed
  next
    case (Rejected reason)
    then have "reason \<noteq> ThrownUndefined"
      using assms Pair by (simp add: reportable_def)
    then show ?thesis
      using Pair Rejected
      by (cases reason) (simp_all add: collect_step_def contribution_def handleApiError_def)
  qed
qed

lemma collect_from_reportable:
  assumes "\<forall>x \<in> set xs. reportable x"
  shows "\<exists>es'. collect_from h (rs, es) xs = Inr (rs @ concat (map contribution xs), es')"
  using assms
proof (induction xs arbitrary: rs es)
  case Nil
  show ?case by simp
next
  case (Cons x xs)
  then obtain es1 where st: "collect_step h (rs, es) x = Inr (rs @ contribution x, es1)"
    using collect_step_reportable [of x h rs es] by auto
  obtain es2 where "collect_from h (rs @ contribution x, es1) xs
                      = Inr ((rs @ contribution x) @ concat (map contribution xs), es2)"
    using Cons.IH [of "rs @ contribution x" es1] Cons.prems by auto
  then show ?case
    by (simp add: st)
qed

lemma collect_reportable:
  assumes "\<forall>x \<in> set (zip tasks settled). reportable x"
  shows "\<exists>es'. collect h tasks settled errors
                 = Inr (concat (map contribution (zip tasks settled)), es')"
  using collect_from_reportable [OF assms, of h "[]" errors] by (simp add: collect_def)

text \<open>A rejection with the reason \<open>undefined\<close> leaves the request without a reply.\<close>

lemma undefined_reason_no_reply:
  "search_finish flag P t q
     (collect h (tk # tasks) (Rejected ThrownUndefined # settled) errors) = None"
  by (simp add: search_finish_def collect_def collect_step_def handleApiError_def)

section \<open>Concrete instances: requests on the sample registry\<close>

lemma trim_blank: "trim '' '' = []"
  by (simp add: trim_def is_space_def)

lemma blank_filter_dispatch:
  "search_dispatch ''foo'' (Some [JStr '' '']) (Inr enabled_configs) sample_registry Map.empty
     = Inr ([(''Locked'', ''configuration is incomplete'')],
            [task_of ''foo'' enabled_configs Map.empty (''steady'', steady_integration),
             task_of ''foo'' enabled_configs Map.empty (''flaky'', flaky_integration)],
            [''steady'' \<mapsto> new_CircuitBreaker search_breaker_options,
             ''flaky'' \<mapsto> new_CircuitBreaker search_breaker_options])"
  by (simp add: search_dispatch_def trim_foo trim_blank sample_registry_def search_step_cases
      dispatched_def isEnabled_def config_of_def filterAllowed_def safeFilters_def
      truthy_message_def validationMessage_def flaky_integration_def steady_integration_def
      locked_integration_def token_validator_def enabled_configs_def getCircuitBreaker_def
      or_empty_def Let_def task_of_def)

lemma blank_filter_spec_count:
  "filter (spec_candidate (Some [JStr '' '']) enabled_configs) sample_registry = []"
  by (simp add: spec_candidate_def sample_registry_def enabled_configs_def flaky_integration_def
      steady_integration_def locked_integration_def)

lemma unset_dispatch:
  "search_dispatch ''foo'' (Some []) (Inr unset_configs) sample_registry Map.empty
     = Inr ([(''Locked'', ''configuration is incomplete'')],
            [task_of ''foo'' unset_configs Map.empty (''steady'', steady_integration),
             task_of ''foo'' unset_configs Map.empty (''flaky'', flaky_integration)],
            [''steady'' \<mapsto> new_CircuitBreaker search_breaker_options,
             ''flaky'' \<mapsto> new_CircuitBreaker search_breaker_options])"
  by (simp add: search_dispatch_def trim_foo sample_registry_def search_step_cases
      dispatched_def isEnabled_def config_of_def filterAllowed_def safeFilters_def
      truthy_message_def validationMessage_def flaky_integration_def steady_integration_def
      locked_integration_def token_validator_def unset_configs_def getCircuitBreaker_def
      or_empty_def Let_def task_of_def)

lemma unset_spec_count:
  "filter (spec_candidate (Some []) unset_configs) sample_registry = []"
  by (simp add: spec_candidate_def sample_registry_def unset_configs_def)

lemma trim_steady: "trim ''steady'' = ''steady''"
  by (simp add: trim_def is_space_def)

lemma trim_flaky: "trim ''flaky'' = ''flaky''"
  by (simp add: trim_def is_space_def)

lemma filtered_dispatch:
  "search_dispatch ''foo'' (Some [JStr ''steady'', JStr '' '', JStr ''flaky'']) (Inr unset_configs)
       sample_registry Map.empty
     = Inr ([],
            [task_of ''foo'' unset_configs Map.empty (''steady'', steady_integration),
             task_of ''foo'' unset_configs Map.empty (''flaky'', flaky_integration)],
            [''steady'' \<mapsto> new_CircuitBreaker search_breaker_options,
             ''flaky'' \<mapsto> new_CircuitBreaker search_breaker_options])"
  by (simp add: search_dispatch_def trim_foo trim_blank trim_steady trim_flaky sample_registry_def
      search_step_cases dispatched_def isEnabled_def config_of_def filterAllowed_def
      safeFilters_def truthy_message_def validationMessage_def flaky_integration_def
      steady_integration_def locked_integration_def token_validator_def unset_configs_def
      getCircuitBreaker_def or_empty_def Let_def task_of_def)

section \<open>The claims\<close>

subsection \<open>C1: what the orchestrator dispatches\<close>

text \<open>
  C1 (as stated): every dispatched task is the breaker-wrapped call of the retry-wrapped
  provider search, so that a provider whose first call fails with a transient error and
  whose second call would succeed is called again before the task fails.

  The source pushes \<open>circuitBreaker.execute(() => definition.searchHandler(...))\<close>; the
  retry mechanism is not part of the composition.  For the flaky provider, the task pushed
  by the handler is rejected with the transient error after one call, while the composition
  of the specification is fulfilled after two.
\<close>

theorem C1_dispatch_without_retry_counterexample:
  "search_dispatch ''foo'' None (Inr Map.empty) [(''flaky'', flaky_integration)] Map.empty
     = Inr ([], [task_of ''foo'' Map.empty Map.empty (''flaky'', flaky_integration)],
            [''flaky'' \<mapsto> new_CircuitBreaker search_breaker_options]) \<and>
   task_promise (task_of ''foo'' Map.empty Map.empty (''flaky'', flaky_integration))
       \<lparr>now = 0, calls = 0\<rparr>
     = (Rejected connection_reset,
        onFailure 5 (new_CircuitBreaker search_breaker_options), \<lparr>now = 5, calls = 1\<rparr>) \<and>
   isTransientError connection_reset \<and>
   spec_dispatch_promise (new_CircuitBreaker search_breaker_options) defaultRetryMechanism (\<lambda>k. 0)
       flaky_integration ''foo'' Map.empty \<lparr>now = 0, calls = 0\<rparr>
     = (Fulfilled (VArray []), onSuccess (new_CircuitBreaker search_breaker_options),
        \<lparr>now = 510, calls = 2\<rparr>) \<and>
   task_promise (task_of ''foo'' Map.empty Map.empty (''flaky'', flaky_integration))
     \<noteq> spec_dispatch_promise (new_CircuitBreaker search_breaker_options) defaultRetryMechanism
         (\<lambda>k. 0) flaky_integration ''foo'' Map.empty"
proof -
  let ?code = "task_promise (task_of ''foo'' Map.empty Map.empty (''flaky'', flaky_integration))"
  let ?spec = "spec_dispatch_promise (new_CircuitBreaker search_breaker_options)
                 defaultRetryMechanism (\<lambda>k. 0) flaky_integration ''foo'' Map.empty"
  have "?code \<noteq> ?spec"
  proof
    assume "?code = ?spec"
    then have "?code \<lparr>now = 0, calls = 0\<rparr> = ?spec \<lparr>now = 0, calls = 0\<rparr>"
      by simp
    then show False
      by (simp add: flaky_promise flaky_spec_promise)
  qed
  then show ?thesis
    using flaky_dispatch flaky_promise transient_connection_reset flaky_spec_promise
    by simp
qed

text \<open>
  C1 (amended): every dispatched task is the breaker-wrapped call of the provider search
  itself: unless the breaker short-circuits, the search handler is called once, and the
  task settles with the settlement of that one call; a failure is recorded by the breaker
  and is not retried.
\<close>

theorem C1_dispatch_single_call:
  assumes "search_dispatch query af (Inr resolved) reg cbs = Inr (errors, tasks, cbs')"
  shows "tasks = map (task_of (trim query) resolved cbs)
                   (filter (dispatched (safeFilters af) resolved) reg) \<and>
         (\<forall>ident defn w.
            task_promise (task_of (trim query) resolved cbs (ident, defn)) w =
              (let cb = fst (getCircuitBreaker ident search_breaker_options cbs)
               in if state cb = OPEN \<and> before_nextAttempt (now w) cb
                  then (Rejected circuit_open_error, cb, w)
                  else (case searchHandler defn (trim query) (config_of resolved ident) w of
                          (r, w') \<Rightarrow>
                            (r, (case r of Fulfilled v \<Rightarrow> onSuccess (enter cb)
                                         | Rejected e \<Rightarrow> onFailure (now w') (enter cb)), w'))))"
  using search_dispatch_tasks [OF assms]
  by (simp add: task_of_def dispatch_promise_def execute_single_call Let_def)

theorem C1_dispatch_single_call_witness:
  "search_dispatch ''foo'' None (Inr Map.empty) [(''flaky'', flaky_integration)] Map.empty
     = Inr ([], [task_of ''foo'' Map.empty Map.empty (''flaky'', flaky_integration)],
            [''flaky'' \<mapsto> new_CircuitBreaker search_breaker_options]) \<and>
   [task_of ''foo'' Map.empty Map.empty (''flaky'', flaky_integration)]
     = map (task_of (trim ''foo'') Map.empty Map.empty)
         (filter (dispatched (safeFilters None) Map.empty) [(''flaky'', flaky_integration)]) \<and>
   task_promise (task_of (trim ''foo'') Map.empty Map.empty (''flaky'', flaky_integration))
       \<lparr>now = 0, calls = 0\<rparr>
     = (Rejected connection_reset,
        onFailure 5 (new_CircuitBreaker search_breaker_options), \<lparr>now = 5, calls = 1\<rparr>)"
  using C1_dispatch_single_call [OF flaky_dispatch] flaky_dispatch flaky_promise trim_foo flaky_dispatched
  by simp

subsection \<open>C3: the breaker opens and short-circuits\<close>

text \<open>
  C3: after \<open>threshold\<close> consecutive recorded failures the state of a breaker is \<open>OPEN\<close>,
  and a call of \<open>execute(fn)\<close> on an \<open>OPEN\<close> breaker before \<open>nextAttempt\<close> fails at once
  with the "service unavailable" error: the result does not depend on \<open>fn\<close>, and the world
  (with any invocation counter in it) and the breaker are unchanged, so \<open>fn\<close> is not called.
\<close>

theorem C3_open_after_threshold_failures_and_short_circuit:
  "(reachable b \<and> length ts = threshold b \<longrightarrow> state (record_failures ts b) = OPEN) \<and>
   (state c = OPEN \<and> before_nextAttempt (now w) c \<longrightarrow>
      CircuitBreaker_execute c fn w = (Rejected circuit_open_error, c, w))"
proof (intro conjI impI)
  assume "reachable b \<and> length ts = threshold b"
  then show "state (record_failures ts b) = OPEN"
    by (simp add: record_failures_opens reachable_threshold_pos)
next
  assume "state c = OPEN \<and> before_nextAttempt (now w) c"
  then show "CircuitBreaker_execute c fn w = (Rejected circuit_open_error, c, w)"
    by (simp add: execute_open_short_circuit)
qed

theorem C3_open_after_threshold_failures_and_short_circuit_witness:
  "reachable (new_CircuitBreaker search_breaker_options) \<and>
   length [10, 20, 30 :: int] = threshold (new_CircuitBreaker search_breaker_options) \<and>
   state tripped_breaker = OPEN \<and>
   before_nextAttempt (now \<lparr>now = 40, calls = 0\<rparr>) tripped_breaker \<and>
   CircuitBreaker_execute tripped_breaker (steady_search ''foo'' Map.empty) \<lparr>now = 40, calls = 0\<rparr>
     = (Rejected circuit_open_error, tripped_breaker, \<lparr>now = 40, calls = 0\<rparr>)"
proof -
  let ?b = "new_CircuitBreaker search_breaker_options"
  let ?w = "\<lparr>now = 40, calls = 0\<rparr>"
  have r: "reachable ?b" by (rule r_new)
  have l: "length [10, 20, 30 :: int] = threshold ?b"
    by (simp add: new_CircuitBreaker_def search_breaker_options_def or_default_def)
  have n: "before_nextAttempt (now ?w) tripped_breaker"
    by (simp add: before_nextAttempt_def tripped_breaker_eq)
  have o: "state tripped_breaker = OPEN"
    by (simp add: tripped_breaker_eq)
  show ?thesis
    using C3_open_after_threshold_failures_and_short_circuit
      [of ?b "[10, 20, 30]" tripped_breaker ?w "steady_search ''foo'' Map.empty"] r l n o
    by (simp add: tripped_breaker_def)
qed

subsection \<open>C4: the trial call of a half-open breaker\<close>

text \<open>
  C4: when \<open>execute\<close> runs the wrapped function with the breaker \<open>HALF_OPEN\<close> (the breaker
  was \<open>OPEN\<close> and \<open>nextAttempt\<close> has passed, or it is \<open>HALF_OPEN\<close> already), a success
  resets \<open>failureCount\<close> to 0 and closes the breaker, and a failure returns it to \<open>OPEN\<close>
  with \<open>nextAttempt\<close> set to the clock reading at the failure plus \<open>resetTimeout\<close>.  The
  same holds of the two steps \<open>onSuccess\<close> and \<open>onFailure\<close> taken on the half-open
  breaker by themselves, at any clock reading.
\<close>

theorem C4_half_open_trial:
  assumes "reachable b"
    and "state b = HALF_OPEN \<or> (state b = OPEN \<and> \<not> before_nextAttempt (now w) b)"
    and "CircuitBreaker_execute b fn w = (r, b', w')"
  shows "state (enter b) = HALF_OPEN \<and> fn w = (r, w') \<and>
         (case r of
            Fulfilled v \<Rightarrow> failureCount b' = 0 \<and> state b' = CLOSED
          | Rejected e \<Rightarrow> state b' = OPEN \<and> nextAttempt b' = Some (now w' + resetTimeout b)) \<and>
         failureCount (onSuccess (enter b)) = 0 \<and> state (onSuccess (enter b)) = CLOSED \<and>
         state (onFailure t (enter b)) = OPEN \<and>
         nextAttempt (onFailure t (enter b)) = Some (t + resetTimeout b)"
proof -
  have h: "state (enter b) = HALF_OPEN"
    using assms(2) by (auto simp: enter_def)
  have "state b \<noteq> CLOSED" using assms(2) by auto
  then have t: "threshold b \<le> failureCount b"
    using reachable_tripped [OF assms(1)] by simp
  have ne: "\<not> (state b = OPEN \<and> before_nextAttempt (now w) b)"
    using assms(2) by auto
  have te: "threshold (enter b) \<le> Suc (failureCount (enter b))"
    using t by (simp add: enter_def)
  have re: "resetTimeout (enter b) = resetTimeout b"
    by (simp add: enter_def)
  have steps: "failureCount (onSuccess (enter b)) = 0 \<and> state (onSuccess (enter b)) = CLOSED \<and>
               state (onFailure t (enter b)) = OPEN \<and>
               nextAttempt (onFailure t (enter b)) = Some (t + resetTimeout b)"
    using onFailure_opens [OF te, of t] re by (simp add: onSuccess_def)
  have call: "fn w = (r, w') \<and>
              (case r of
                 Fulfilled v \<Rightarrow> failureCount b' = 0 \<and> state b' = CLOSED
               | Rejected e \<Rightarrow> state b' = OPEN \<and> nextAttempt b' = Some (now w' + resetTimeout b))"
  proof (cases "fn w")
    case (Pair r0 w0)
    show ?thesis
    proof (cases r0)
      case (Fulfilled v)
      with Pair assms(3) ne h show ?thesis
        by (auto simp: CircuitBreaker_execute_def onSuccess_def)
    next
      case (Rejected e)
      with Pair assms(3) ne h onFailure_opens [OF te, of "now w0"] re show ?thesis
        by (auto simp: CircuitBreaker_execute_def)
    qed
  qed
  show ?thesis
    using h call steps by simp
qed

theorem C4_half_open_trial_witness:
  "reachable tripped_breaker \<and>
   (state tripped_breaker = HALF_OPEN \<or>
    (state tripped_breaker = OPEN \<and> \<not> before_nextAttempt (now \<lparr>now = 70000\<rparr>) tripped_breaker)) \<and>
   CircuitBreaker_execute tripped_breaker (\<lambda>w. (Fulfilled True, w\<lparr>now := now w + 5\<rparr>)) \<lparr>now = 70000\<rparr>
     = (Fulfilled True, tripped_breaker\<lparr>failureCount := 0, state := CLOSED\<rparr>, \<lparr>now = 70005\<rparr>) \<and>
   CircuitBreaker_execute tripped_breaker
       (\<lambda>w. (Rejected connection_reset :: bool outcome, w\<lparr>now := now w + 5\<rparr>)) \<lparr>now = 70000\<rparr>
     = (Rejected connection_reset,
        tripped_breaker\<lparr>failureCount := 4, lastFailure := Some 70005, nextAttempt := Some 130005\<rparr>,
        \<lparr>now = 70005\<rparr>) \<and>
   state (tripped_breaker\<lparr>failureCount := 4, lastFailure := Some 70005,
            nextAttempt := Some 130005\<rparr>) = OPEN"
proof -
  let ?w = "\<lparr>now = 70000\<rparr>"
  let ?ok = "\<lambda>w :: world. (Fulfilled True, w\<lparr>now := now w + 5\<rparr>)"
  let ?ko = "\<lambda>w :: world. (Rejected connection_reset :: bool outcome, w\<lparr>now := now w + 5\<rparr>)"
  have h: "state tripped_breaker = HALF_OPEN \<or>
           (state tripped_breaker = OPEN \<and> \<not> before_nextAttempt (now ?w) tripped_breaker)"
    by (simp add: tripped_breaker_eq before_nextAttempt_def)
  have ok: "CircuitBreaker_execute tripped_breaker ?ok ?w
              = (Fulfilled True, tripped_breaker\<lparr>failureCount := 0, state := CLOSED\<rparr>, \<lparr>now = 70005\<rparr>)"
    by (simp add: tripped_breaker_eq CircuitBreaker_execute_def before_nextAttempt_def enter_def
        onSuccess_def setState_def)
  have ko: "CircuitBreaker_execute tripped_breaker ?ko ?w
              = (Rejected connection_reset,
                 tripped_breaker\<lparr>failureCount := 4, lastFailure := Some 70005,
                   nextAttempt := Some 130005\<rparr>, \<lparr>now = 70005\<rparr>)"
    by (simp add: tripped_breaker_eq CircuitBreaker_execute_def before_nextAttempt_def enter_def
        onFailure_def setState_def Let_def)
  show ?thesis
    using C4_half_open_trial [OF reachable_tripped_breaker h ok]
      C4_half_open_trial [OF reachable_tripped_breaker h ko] h ok ko reachable_tripped_breaker
    by simp
qed

subsection \<open>C5: the delay before a retry\<close>

text \<open>
  C5 (as stated): without jitter the delay before retry \<open>n\<close> is exactly
  \<open>min(baseDelay * 2^(n-1), maxDelay)\<close>, and with jitter it lies between 0.5 and 1.0 times
  that value.

  The delay is rounded down to whole milliseconds at the end.  With \<open>baseDelay = 1001\<close>
  and \<open>Math.random()\<close> returning 0, the delay of attempt 1 is 500, below \<open>0.5 * 1001\<close>.
\<close>

theorem C5_jitter_lower_bound_counterexample:
  "real_of_int (calculateDelay
       (new_RetryMechanism \<lparr>opt_maxRetries = None, opt_baseDelay = Some 1001,
                            opt_maxDelay = None, opt_jitter = Some True\<rparr>) 1 0)
     < 0.5 * min (1001 * 2 powi (1 - 1)) 30000"
  by (simp add: calculateDelay_def new_RetryMechanism_def or_default_def Let_def)

text \<open>
  C5 (amended): let \<open>v = min(baseDelay * 2^(n-1), maxDelay)\<close>.  For a mechanism whose
  \<open>jitter\<close> field is false, the delay is \<open>v\<close> rounded down, hence exactly \<open>v\<close> when \<open>v\<close> is
  a whole number.  For a mechanism with jitter, a random number in \<open>[0, 1)\<close> and \<open>v \<ge> 0\<close>,
  the delay is a whole number between \<open>0.5 * v\<close> rounded down and \<open>v\<close>; it is greater
  than \<open>0.5 * v - 1\<close>.
\<close>

theorem C5_delay_rounded_down:
  assumes "v = min (baseDelay r * 2 powi (n - 1)) (maxDelay r)"
  shows "(\<not> jitter r \<longrightarrow>
            calculateDelay r n rnd = \<lfloor>v\<rfloor> \<and>
            (v \<in> \<int> \<longrightarrow> real_of_int (calculateDelay r n rnd) = v)) \<and>
         (jitter r \<and> 0 \<le> rnd \<and> rnd < 1 \<and> 0 \<le> v \<longrightarrow>
            \<lfloor>0.5 * v\<rfloor> \<le> calculateDelay r n rnd \<and>
            real_of_int (calculateDelay r n rnd) \<le> v \<and>
            0.5 * v - 1 < real_of_int (calculateDelay r n rnd))"
proof (intro conjI impI)
  assume "\<not> jitter r"
  then show "calculateDelay r n rnd = \<lfloor>v\<rfloor>"
    by (simp add: calculateDelay_def assms Let_def)
next
  assume "\<not> jitter r" and "v \<in> \<int>"
  then show "real_of_int (calculateDelay r n rnd) = v"
    by (simp add: calculateDelay_def assms [symmetric] Let_def)
next
  assume j: "jitter r \<and> 0 \<le> rnd \<and> rnd < 1 \<and> 0 \<le> v"
  let ?d = "v * (0.5 + rnd * 0.5)"
  have d: "calculateDelay r n rnd = \<lfloor>?d\<rfloor>"
    using j by (simp add: calculateDelay_def assms Let_def)
  have lo: "0.5 * v \<le> ?d"
    using j by (simp add: algebra_simps mult_nonneg_nonneg)
  have hi: "?d \<le> v"
  proof -
    have "v * (0.5 + rnd * 0.5) \<le> v * 1"
      using j by (intro mult_left_mono) auto
    then show ?thesis by simp
  qed
  show "\<lfloor>0.5 * v\<rfloor> \<le> calculateDelay r n rnd"
    unfolding d using lo by (rule floor_mono)
  show "real_of_int (calculateDelay r n rnd) \<le> v"
    unfolding d using hi by linarith
  show "0.5 * v - 1 < real_of_int (calculateDelay r n rnd)"
    unfolding d using lo by linarith
qed

theorem C5_delay_rounded_down_witness:
  "\<not> jitter \<lparr>maxRetries = 3, baseDelay = 1000, maxDelay = 30000, jitter = False\<rparr> \<and>
   (4000 :: real) \<in> \<int> \<and>
   calculateDelay \<lparr>maxRetries = 3, baseDelay = 1000, maxDelay = 30000, jitter = False\<rparr> 3 0 = 4000 \<and>
   jitter \<lparr>maxRetries = 3, baseDelay = 1001, maxDelay = 30000, jitter = True\<rparr> \<and>
   \<lfloor>0.5 * (1001 :: real)\<rfloor> \<le>
     calculateDelay \<lparr>maxRetries = 3, baseDelay = 1001, maxDelay = 30000, jitter = True\<rparr> 1 0 \<and>
   real_of_int (calculateDelay \<lparr>maxRetries = 3, baseDelay = 1001, maxDelay = 30000, jitter = True\<rparr> 1 0)
     \<le> 1001"
proof -
  let ?r = "\<lparr>maxRetries = 3, baseDelay = 1000, maxDelay = 30000, jitter = False\<rparr>"
  let ?j = "\<lparr>maxRetries = 3, baseDelay = 1001, maxDelay = 30000, jitter = True\<rparr>"
  have v1: "(4000 :: real) = min (baseDelay ?r * 2 powi (3 - 1)) (maxDelay ?r)" by simp
  have v2: "(1001 :: real) = min (baseDelay ?j * 2 powi (1 - 1)) (maxDelay ?j)" by simp
  show ?thesis
    using C5_delay_rounded_down [OF v1, of 0] C5_delay_rounded_down [OF v2, of 0] by simp
qed

subsection \<open>C2: the number of tasks, and partial failure\<close>

text \<open>
  C2 (as stated): for a request with a non-empty trimmed query, the number of tasks equals
  the number of providers that are enabled, match the active filters (an empty filter set
  matches all) and whose validation returns \<open>null\<close>; and a failing task never removes the
  results of another from the response.

  The handler drops blank filter entries before it matches: with the one filter \<open>" "\<close> and
  every provider enabled, it dispatches to both providers with a valid configuration,
  where no provider matches the filters of the request.  It also takes a configuration
  without an \<open>enabled\<close> field as enabled: with such configurations and no filter it
  dispatches to the same two providers, where no provider has \<open>enabled\<close> set to true.
\<close>

theorem C2_task_count_counterexample:
  "trim ''foo'' \<noteq> [] \<and>
   search_dispatch ''foo'' (Some [JStr '' '']) (Inr enabled_configs) sample_registry Map.empty
     = Inr ([(''Locked'', ''configuration is incomplete'')],
            [task_of ''foo'' enabled_configs Map.empty (''steady'', steady_integration),
             task_of ''foo'' enabled_configs Map.empty (''flaky'', flaky_integration)],
            [''steady'' \<mapsto> new_CircuitBreaker search_breaker_options,
             ''flaky'' \<mapsto> new_CircuitBreaker search_breaker_options]) \<and>
   length (filter (spec_candidate (Some [JStr '' '']) enabled_configs) sample_registry) = 0 \<and>
   search_dispatch ''foo'' (Some []) (Inr unset_configs) sample_registry Map.empty
     = Inr ([(''Locked'', ''configuration is incomplete'')],
            [task_of ''foo'' unset_configs Map.empty (''steady'', steady_integration),
             task_of ''foo'' unset_configs Map.empty (''flaky'', flaky_integration)],
            [''steady'' \<mapsto> new_CircuitBreaker search_breaker_options,
             ''flaky'' \<mapsto> new_CircuitBreaker search_breaker_options]) \<and>
   length (filter (spec_candidate (Some []) unset_configs) sample_registry) = 0"
  using blank_filter_dispatch blank_filter_spec_count unset_dispatch unset_spec_count
  by (simp add: trim_foo)

text \<open>
  C2 (amended): for a request whose trimmed query is not empty and whose configurations
  have been resolved, the handler pushes exactly one task for each registry entry whose
  \<open>enabled\<close> field is absent, \<open>undefined\<close> or truthy, whose \<open>filterKey\<close> is among the
  non-blank string entries of \<open>activeFilters\<close> (or there is no such entry), and whose
  validation is absent or returns \<open>null\<close> or the empty string.  When the tasks have settled
  and no rejection reason (and nothing an extractor throws) is \<open>undefined\<close> or \<open>null\<close>,
  the handler replies, the array extracted from any fulfilled task is a block of
  \<open>results\<close> whatever the settlements of the other tasks are, rejected ones included, and
  each of its elements is among the results of the reply, with or without scoring, up to
  its \<open>relevanceScore\<close> field.
\<close>

theorem C2_dispatch_rule_and_partial_failure:
  assumes "trim query \<noteq> []"
  shows "\<exists>errors tasks cbs'.
           search_dispatch query af (Inr resolved) reg cbs = Inr (errors, tasks, cbs') \<and>
           length tasks = length (filter (dispatch_rule af resolved) reg) \<and>
           (\<forall>settled.
              length settled = length tasks \<and> (\<forall>x \<in> set (zip tasks settled). reportable x) \<longrightarrow>
              (\<exists>results errors' reply.
                 collect user_message tasks settled errors = Inr (results, errors') \<and>
                 search_finish enableBM25Scoring Date_parse t (trim query)
                     (collect user_message tasks settled errors) = Some reply \<and>
                 (\<forall>i v arr.
                    i < length tasks \<and> settled ! i = Fulfilled v \<and>
                    task_extract (tasks ! i) v = Inr (Some arr) \<longrightarrow>
                    (\<exists>before after. results = before @ arr @ after) \<and>
                    (\<forall>r \<in> set arr. \<exists>r' \<in> set (fst reply). scored_copy r' r))))"
proof -
  obtain errors tasks cbs' where
    sd: "search_dispatch query af (Inr resolved) reg cbs = Inr (errors, tasks, cbs')"
    using search_dispatch_total [OF assms] by blast
  have tasks: "tasks = map (task_of (trim query) resolved cbs)
                         (filter (dispatched (safeFilters af) resolved) reg)"
    using sd by (rule search_dispatch_tasks)
  have same: "filter (dispatched (safeFilters af) resolved) reg
                = filter (dispatch_rule af resolved) reg"
    by (rule filter_cong [OF refl]) (rule dispatched_rule)
  have count: "length tasks = length (filter (dispatch_rule af resolved) reg)"
    by (simp add: tasks same)
  have keep: "\<exists>results errors' reply.
                 collect user_message tasks settled errors = Inr (results, errors') \<and>
                 search_finish enableBM25Scoring Date_parse t (trim query)
                     (collect user_message tasks settled errors) = Some reply \<and>
                 (\<forall>i v arr.
                    i < length tasks \<and> settled ! i = Fulfilled v \<and>
                    task_extract (tasks ! i) v = Inr (Some arr) \<longrightarrow>
                    (\<exists>before after. results = before @ arr @ after) \<and>
                    (\<forall>r \<in> set arr. \<exists>r' \<in> set (fst reply). scored_copy r' r))"
    if h: "length settled = length tasks \<and> (\<forall>x \<in> set (zip tasks settled). reportable x)"
    for settled
  proof -
    let ?results = "concat (map contribution (zip tasks settled))"
    obtain errors' where c: "collect user_message tasks settled errors = Inr (?results, errors')"
      using collect_reportable [of tasks settled user_message errors] h by blast
    let ?reply = "search_reply enableBM25Scoring Date_parse t (trim query) (?results, errors')"
    have f: "search_finish enableBM25Scoring Date_parse t (trim query)
               (collect user_message tasks settled errors) = Some ?reply"
      by (simp add: c search_finish_def)
    have each: "(\<exists>before after. ?results = before @ arr @ after) \<and>
                (\<forall>r \<in> set arr. \<exists>r' \<in> set (fst ?reply). scored_copy r' r)"
      if a: "i < length tasks \<and> settled ! i = Fulfilled v \<and>
             task_extract (tasks ! i) v = Inr (Some arr)" for i v arr
    proof -
      have i: "i < length (zip tasks settled)" using a h by simp
      have "contribution (zip tasks settled ! i) = arr"
        using a h by (simp add: contribution_def)
      then have block: "\<exists>before after. ?results = before @ arr @ after"
        using concat_map_nth_block [OF i, of contribution] by metis
      have "\<exists>r' \<in> set (fst ?reply). scored_copy r' r" if "r \<in> set arr" for r
      proof -
        obtain before after where "?results = before @ arr @ after"
          using block by blast
        then have "set ?results = set before \<union> set arr \<union> set after"
          by (metis set_append Un_assoc)
        then have "r \<in> set ?results" using that by blast
        then show ?thesis by (rule search_reply_keeps)
      qed
      then show ?thesis using block by blast
    qed
    show ?thesis
      using c f each by blast
  qed
  show ?thesis
    using sd count keep by blast
qed

theorem C2_dispatch_rule_and_partial_failure_witness:
  "trim ''foo'' \<noteq> [] \<and>
   (\<exists>errors tasks cbs'.
      search_dispatch ''foo'' (Some [JStr ''steady'', JStr '' '', JStr ''flaky''])
          (Inr unset_configs) sample_registry Map.empty
        = Inr (errors, tasks, cbs') \<and>
      length tasks = 2 \<and>
      length (filter (dispatch_rule (Some [JStr ''steady'', JStr '' '', JStr ''flaky''])
                        unset_configs) sample_registry) = 2 \<and>
      length [Fulfilled (VArray [undated_result]), Rejected connection_reset] = length tasks \<and>
      list_all reportable
        (zip tasks [Fulfilled (VArray [undated_result]), Rejected connection_reset]) \<and>
      task_extract (tasks ! 0) (VArray [undated_result]) = Inr (Some [undated_result]) \<and>
      (\<exists>results errors' reply.
         collect (\<lambda>e s. message e) tasks
             [Fulfilled (VArray [undated_result]), Rejected connection_reset] errors
           = Inr (results, errors') \<and>
         search_finish True sample_Date_parse 1704067200000 (trim ''foo'')
             (collect (\<lambda>e s. message e) tasks
                [Fulfilled (VArray [undated_result]), Rejected connection_reset] errors)
           = Some reply \<and>
         (\<exists>before after. results = before @ [undated_result] @ after) \<and>
         (\<exists>r' \<in> set (fst reply). scored_copy r' undated_result)))"
proof -
  let ?af = "Some [JStr ''steady'', JStr '' '', JStr ''flaky'']"
  let ?settled = "[Fulfilled (VArray [undated_result]), Rejected connection_reset]"
  have q: "trim ''foo'' \<noteq> []" by (simp add: trim_foo)
  obtain errors tasks cbs' where
    sd: "search_dispatch ''foo'' ?af (Inr unset_configs) sample_registry Map.empty
           = Inr (errors, tasks, cbs')"
    and cnt: "length tasks = length (filter (dispatch_rule ?af unset_configs) sample_registry)"
    and keep: "\<forall>settled.
                 length settled = length tasks \<and> (\<forall>x \<in> set (zip tasks settled). reportable x) \<longrightarrow>
                 (\<exists>results errors' reply.
                    collect (\<lambda>e s. message e) tasks settled errors = Inr (results, errors') \<and>
                    search_finish True sample_Date_parse 1704067200000 (trim ''foo'')
                        (collect (\<lambda>e s. message e) tasks settled errors) = Some reply \<and>
                    (\<forall>i v arr.
                       i < length tasks \<and> settled ! i = Fulfilled v \<and>
                       task_extract (tasks ! i) v = Inr (Some arr) \<longrightarrow>
                       (\<exists>before after. results = before @ arr @ after) \<and>
                       (\<forall>r \<in> set arr. \<exists>r' \<in> set (fst reply). scored_copy r' r)))"
    using C2_dispatch_rule_and_partial_failure
      [OF q, of ?af unset_configs sample_registry Map.empty "\<lambda>e s. message e" True sample_Date_parse
        1704067200000]
    by blast
  have tasks: "tasks = [task_of ''foo'' unset_configs Map.empty (''steady'', steady_integration),
                        task_of ''foo'' unset_configs Map.empty (''flaky'', flaky_integration)]"
    using sd filtered_dispatch by simp
  have len: "length tasks = 2" by (simp add: tasks)
  have ls: "length ?settled = length tasks" by (simp add: len)
  have ex: "task_extract (tasks ! 0) (VArray [undated_result]) = Inr (Some [undated_result])"
    by (simp add: tasks task_of_def steady_integration_def default_extractor_def)
  have rep: "list_all reportable (zip tasks ?settled)"
    by (simp add: tasks reportable_def task_of_def steady_integration_def default_extractor_def
        connection_reset_def)
  then have rep': "\<forall>x \<in> set (zip tasks ?settled). reportable x"
    by (simp add: list_all_iff)
  obtain results errors' reply where
    c: "collect (\<lambda>e s. message e) tasks ?settled errors = Inr (results, errors')"
    and f: "search_finish True sample_Date_parse 1704067200000 (trim ''foo'')
              (collect (\<lambda>e s. message e) tasks ?settled errors) = Some reply"
    and each: "\<forall>i v arr.
                 i < length tasks \<and> ?settled ! i = Fulfilled v \<and>
                 task_extract (tasks ! i) v = Inr (Some arr) \<longrightarrow>
                 (\<exists>before after. results = before @ arr @ after) \<and>
                 (\<forall>r \<in> set arr. \<exists>r' \<in> set (fst reply). scored_copy r' r)"
    using keep [rule_format, of ?settled] ls rep' by blast
  have both: "(\<exists>before after. results = before @ [undated_result] @ after) \<and>
              (\<exists>r' \<in> set (fst reply). scored_copy r' undated_result)"
    using each [rule_format, of 0 "VArray [undated_result]" "[undated_result]"] len ex by simp
  have "\<exists>errors tasks cbs'.
      search_dispatch ''foo'' ?af (Inr unset_configs) sample_registry Map.empty
        = Inr (errors, tasks, cbs') \<and>
      length tasks = 2 \<and>
      length (filter (dispatch_rule ?af unset_configs) sample_registry) = 2 \<and>
      length ?settled = length tasks \<and>
      list_all reportable (zip tasks ?settled) \<and>
      task_extract (tasks ! 0) (VArray [undated_result]) = Inr (Some [undated_result]) \<and>
      (\<exists>results errors' reply.
         collect (\<lambda>e s. message e) tasks ?settled errors = Inr (results, errors') \<and>
         search_finish True sample_Date_parse 1704067200000 (trim ''foo'')
             (collect (\<lambda>e s. message e) tasks ?settled errors) = Some reply \<and>
         (\<exists>before after. results = before @ [undated_result] @ after) \<and>
         (\<exists>r' \<in> set (fst reply). scored_copy r' undated_result))"
    using sd cnt len ls rep ex c f both by metis
  then show ?thesis
    using q by simp
qed

subsection \<open>C9: a configuration without an \<open>enabled\<close> field\<close>

text \<open>
  C9: a registry entry whose resolved configuration has no \<open>enabled\<close> field counts as
  enabled: it is dispatched exactly when the filters allow it and its validation gives no
  message, and its task is then among the tasks of the request.
\<close>

theorem C9_absent_enabled_field:
  assumes "search_dispatch query af (Inr resolved) reg cbs = Inr (errors, tasks, cbs')"
    and "(ident, defn) \<in> set reg"
    and "config_of resolved ident ''enabled'' = None"
  shows "isEnabled (config_of resolved ident) \<and>
         dispatched (safeFilters af) resolved (ident, defn)
           = (filterAllowed (safeFilters af) defn \<and>
              \<not> truthy_message (validationMessage defn (config_of resolved ident))) \<and>
         (dispatched (safeFilters af) resolved (ident, defn) \<longrightarrow>
            task_of (trim query) resolved cbs (ident, defn) \<in> set tasks)"
proof -
  have en: "isEnabled (config_of resolved ident)"
    using assms(3) by (simp add: isEnabled_def)
  have "tasks = map (task_of (trim query) resolved cbs)
                  (filter (dispatched (safeFilters af) resolved) reg)"
    using assms(1) by (rule search_dispatch_tasks)
  then have "dispatched (safeFilters af) resolved (ident, defn) \<Longrightarrow>
               task_of (trim query) resolved cbs (ident, defn) \<in> set tasks"
    using assms(2) by auto
  then show ?thesis
    using en by (auto simp: dispatched_def)
qed

theorem C9_absent_enabled_field_witness:
  "search_dispatch ''foo'' None (Inr Map.empty) sample_registry Map.empty
     = Inr ([(''Locked'', ''configuration is incomplete'')],
            [task_of ''foo'' Map.empty Map.empty (''steady'', steady_integration),
             task_of ''foo'' Map.empty Map.empty (''flaky'', flaky_integration)],
            [''steady'' \<mapsto> new_CircuitBreaker search_breaker_options,
             ''flaky'' \<mapsto> new_CircuitBreaker search_breaker_options]) \<and>
   (''flaky'', flaky_integration) \<in> set sample_registry \<and>
   config_of Map.empty ''flaky'' ''enabled'' = None \<and>
   isEnabled (config_of Map.empty ''flaky'') \<and>
   dispatched (safeFilters None) Map.empty (''flaky'', flaky_integration) \<and>
   task_of (trim ''foo'') Map.empty Map.empty (''flaky'', flaky_integration)
     \<in> set [task_of ''foo'' Map.empty Map.empty (''steady'', steady_integration),
            task_of ''foo'' Map.empty Map.empty (''flaky'', flaky_integration)]"
proof -
  have m: "(''flaky'', flaky_integration) \<in> set sample_registry"
    by (simp add: sample_registry_def)
  have e: "config_of Map.empty ''flaky'' ''enabled'' = None"
    by (simp add: config_of_def)
  show ?thesis
    using C9_absent_enabled_field [OF sample_dispatch m e] sample_dispatch m e flaky_dispatched
    by simp
qed

subsection \<open>C6: the recency boost\<close>

text \<open>
  C6: the recency boost is \<open>clamp(exp(-daysSinceUpdate * decayRate), 0.1, 1.0)\<close> for a
  valid timestamp (lemma \<open>recency_valid\<close>) and 0.5 for a missing one (lemma
  \<open>recency_missing\<close>), and the claim says it is 0.5 for an unparsable one as well.  The
  source does not reach its \<open>catch\<close> branch for a string that is no date: for every
  non-empty string that the date parser rejects, the result is \<open>NaN\<close>.
\<close>

theorem C6_unparsable_updated_gives_NaN:
  "s \<noteq> [] \<Longrightarrow> Date_parse s = None \<Longrightarrow> calculateRecencyBoost Date_parse t (Some s) = NaN"
  by (simp add: calculateRecencyBoost_def Let_def)

theorem C6_unparsable_updated_gives_NaN_witness:
  "''not-a-date'' \<noteq> [] \<and> sample_Date_parse ''not-a-date'' = None \<and>
   calculateRecencyBoost sample_Date_parse 1704067200000 (Some ''not-a-date'') = NaN \<and>
   NaN \<noteq> Num 0.5"
proof -
  have a: "''not-a-date'' \<noteq> []" by simp
  have b: "sample_Date_parse ''not-a-date'' = None" by (simp add: sample_Date_parse_def)
  show ?thesis
    using C6_unparsable_updated_gives_NaN
      [of "''not-a-date''" sample_Date_parse 1704067200000, OF a b] a b
    by simp
qed

subsection \<open>C7: the floor of the relevance score\<close>

text \<open>
  C7: every returned result has a \<open>relevanceScore\<close> of at least \<open>minScore\<close>, whatever its
  \<open>updated\<close> field holds.  For the one result \<open>undated_result\<close>, whose \<open>updated\<close> is no
  date, and the query \<open>foo\<close>, the source returns the result with the score \<open>NaN\<close>, and
  \<open>NaN >= minScore\<close> is false.
\<close>

theorem C7_score_NaN_for_unparsable_updated:
  "calculateRelevanceScores sample_Date_parse t [undated_result] ''foo''
     = [undated_result\<lparr>relevanceScore := Some NaN\<rparr>] \<and>
   \<not> jge NaN (Num minScore)"
proof -
  have r: "calculateRecencyBoost sample_Date_parse t (updated undated_result) = NaN"
    by (simp add: calculateRecencyBoost_def Let_def undated_result_def sample_Date_parse_def)
  show ?thesis
    by (simp add: calculateRelevanceScores_def tokenize_foo tokens_undated_result scoreResult_def
        r Let_def sort_by_score_def)
qed

subsection \<open>C8: BM25 and the term frequency\<close>




subsection \<open>C10: a query without terms\<close>

text \<open>
  C10: for a non-empty list of results and a query whose tokenization yields no term,
  \<open>calculateRelevanceScores\<close> returns its input: the same results in the same order,
  with no \<open>relevanceScore\<close> assigned.
\<close>

theorem C10_no_query_terms_returns_input:
  assumes "results \<noteq> []" and "tokenize query = []"
  shows "calculateRelevanceScores Date_parse t results query = results"
  using assms by (simp add: calculateRelevanceScores_def Let_def)

theorem C10_no_query_terms_returns_input_witness:
  "[undated_result, undated_result\<lparr>title := Some ''bar''\<rparr>] \<noteq> [] \<and>
   tokenize ''The of A!'' = [] \<and>
   calculateRelevanceScores sample_Date_parse 1704067200000
       [undated_result, undated_result\<lparr>title := Some ''bar''\<rparr>] ''The of A!''
     = [undated_result, undated_result\<lparr>title := Some ''bar''\<rparr>]"
proof -
  have a: "[undated_result, undated_result\<lparr>title := Some ''bar''\<rparr>] \<noteq> []" by simp
  show ?thesis
    using C10_no_query_terms_returns_input [OF a tokenize_stop_words] tokenize_stop_words
    by simp
qed

end
